theory Spec2Isabelle
  imports Main "HOL-Library.Word"
begin

unbundle bit_operations_syntax

section \<open>Messages\<close>

text \<open>
  \<^verbatim>\<open>enum DP_MessageType\<close> is declared in \<^verbatim>\<open>dpmsg/message.h\<close>. The paint engine compares
  message types for equality with named enumerators and, in \<^verbatim>\<open>is_internal_or_command\<close>,
  with the number 128. The enumerators the engine names are constructors here; every other
  type is \<open>DP_MSG_OTHER n\<close> with its numeric value \<open>n\<close>.
\<close>

datatype DP_MessageType =
    DP_MSG_INTERNAL
  | DP_MSG_LASER_TRAIL
  | DP_MSG_MOVE_POINTER
  | DP_MSG_DEFAULT_LAYER
  | DP_MSG_DRAW_DABS_CLASSIC
  | DP_MSG_DRAW_DABS_PIXEL
  | DP_MSG_DRAW_DABS_PIXEL_SQUARE
  | DP_MSG_DRAW_DABS_MYPAINT
  | DP_MSG_OTHER nat

text \<open>
  Modelled from the spec: the numeric values of \<^verbatim>\<open>enum DP_MessageType\<close> (the header is not
  part of the sources at hand). The spec fixes that command messages, the draw dabs families
  among them, have type \<open>\<ge> 128\<close>, that laser trail, move pointer and default layer are meta
  messages (below 128) and that \<^verbatim>\<open>Internal\<close> is a pseudo-type outside the command range; the
  numbers are those of the wire protocol.
\<close>

fun message_type_value :: "DP_MessageType \<Rightarrow> nat" where
  "message_type_value DP_MSG_INTERNAL = 31"
| "message_type_value DP_MSG_LASER_TRAIL = 65"
| "message_type_value DP_MSG_MOVE_POINTER = 66"
| "message_type_value DP_MSG_DEFAULT_LAYER = 71"
| "message_type_value DP_MSG_DRAW_DABS_CLASSIC = 148"
| "message_type_value DP_MSG_DRAW_DABS_PIXEL = 149"
| "message_type_value DP_MSG_DRAW_DABS_PIXEL_SQUARE = 150"
| "message_type_value DP_MSG_DRAW_DABS_MYPAINT = 151"
| "message_type_value (DP_MSG_OTHER n) = n"

text \<open>
  A message is a context id and a body. Of a draw dabs message the engine reads only the
  \<^verbatim>\<open>size\<close> field of each dab (an unsigned field of the wire format), so a dab list is the
  list of its sizes. An internal preview message carries a pointer to a preview object; the
  pointer is null, the address of the static \<^verbatim>\<open>null_preview\<close>, or a heap object
  (\<^verbatim>\<open>DP_PaintEngineCutPreview\<close> or \<^verbatim>\<open>DP_PaintEngineDabsPreview\<close>, each starting with the
  parent's two initial offsets).
\<close>

datatype DP_Message =
    Message (context_id: nat) (body: message_body)
and message_body =
    Internal DP_MsgInternal
  | LaserTrail (persistence: "8 word") (color: "32 word")
  | MovePointer (pointer_x: int) (pointer_y: int)
  | DefaultLayer (default_layer_id: "16 word")
  | DrawDabsClassic "nat list"
  | DrawDabsPixel "nat list"
  | DrawDabsPixelSquare "nat list"
  | DrawDabsMyPaint "nat list"
  | Other nat
and DP_MsgInternal =
    DP_MSG_INTERNAL_TYPE_RESET
  | DP_MSG_INTERNAL_TYPE_SOFT_RESET
  | DP_MSG_INTERNAL_TYPE_SNAPSHOT
  | DP_MSG_INTERNAL_TYPE_CATCHUP int
  | DP_MSG_INTERNAL_TYPE_CLEANUP
  | DP_MSG_INTERNAL_TYPE_PREVIEW preview_ptr
  | DP_MSG_INTERNAL_TYPE_UNKNOWN nat
and preview_ptr =
    NULL_preview
  | Addr_null_preview
  | Preview_object (initial_offset_x: int) (initial_offset_y: int) preview_kind
and preview_kind =
    CutPreview int int int int int "8 word list option"
  | DabsPreview int int "DP_Message list"

fun body_type :: "message_body \<Rightarrow> DP_MessageType" where
  "body_type (Internal mi) = DP_MSG_INTERNAL"
| "body_type (LaserTrail p c) = DP_MSG_LASER_TRAIL"
| "body_type (MovePointer x y) = DP_MSG_MOVE_POINTER"
| "body_type (DefaultLayer l) = DP_MSG_DEFAULT_LAYER"
| "body_type (DrawDabsClassic ds) = DP_MSG_DRAW_DABS_CLASSIC"
| "body_type (DrawDabsPixel ds) = DP_MSG_DRAW_DABS_PIXEL"
| "body_type (DrawDabsPixelSquare ds) = DP_MSG_DRAW_DABS_PIXEL_SQUARE"
| "body_type (DrawDabsMyPaint ds) = DP_MSG_DRAW_DABS_MYPAINT"
| "body_type (Other n) = DP_MSG_OTHER n"

definition DP_message_type :: "DP_Message \<Rightarrow> DP_MessageType" where
  "DP_message_type msg = body_type (body msg)"

section \<open>The engine\<close>

type_synonym canvas_state_ptr = nat
type_synonym layer_props_list_ptr = nat

datatype DP_LayerViewMode =
    DP_LAYER_VIEW_MODE_NORMAL
  | DP_LAYER_VIEW_MODE_SOLO
  | DP_LAYER_VIEW_MODE_FRAME
  | DP_LAYER_VIEW_MODE_ONION_SKIN

record DP_PaintEngineLaserBuffer =
  lb_persistence :: "8 word"
  lb_b :: "8 word"
  lb_g :: "8 word"
  lb_r :: "8 word"
  lb_a :: "8 word"

text \<open>
  The arrays of 256 elements are indexed by a \<^verbatim>\<open>uint8_t\<close> context id (\<open>active\<close>, \<open>buffers\<close>,
  \<open>positions\<close>) or by the count read into an \<^verbatim>\<open>int\<close> before it is incremented (\<open>users\<close>);
  no index leaves the array, so each array is a total function of its index.
\<close>

record DP_PaintEngineLaserChanges =
  laser_count :: "8 word"
  laser_users :: "nat \<Rightarrow> 8 word"
  laser_active :: "8 word \<Rightarrow> bool"
  laser_buffers :: "8 word \<Rightarrow> DP_PaintEngineLaserBuffer"

record DP_PaintEngineCursorChanges =
  cursor_count :: "8 word"
  cursor_users :: "nat \<Rightarrow> 8 word"
  cursor_active :: "8 word \<Rightarrow> bool"
  cursor_positions :: "8 word \<Rightarrow> int \<times> int"

record DP_PaintEngineMetaBuffer =
  acl_change_flags :: "8 word"
  have_default_layer :: bool
  default_layer :: "16 word"
  laser_changes :: DP_PaintEngineLaserChanges
  cursor_changes :: DP_PaintEngineCursorChanges

text \<open>
  The hidden layer ids are the first \<^verbatim>\<open>used\<close> elements of \<^verbatim>\<open>layer_ids\<close>; the two memoised
  layer props lists are nullable pointers.
\<close>

record local_view =
  active_layer_id :: int
  active_frame_index :: int
  layer_view_mode :: DP_LayerViewMode
  reveal_censored :: bool
  inspect_context_id :: nat
  hidden_layers :: "int list"
  prev_lpl :: "layer_props_list_ptr option"
  lpl :: "layer_props_list_ptr option"

text \<open>
  \<^verbatim>\<open>struct DP_PaintEngine\<close>, with the fields the modelled functions read or write. The ACL
  state machine is an object of another library, of any type \<open>'acl\<close>. A queue is the list of
  its messages, oldest first. \<open>meta_buffer\<close> is the flexible buffer at the end of the struct
  seen as a \<^verbatim>\<open>DP_PaintEngineMetaBuffer\<close>.
\<close>

record 'acl DP_PaintEngine =
  acls :: 'acl
  history_cs :: canvas_state_ptr
  view_cs :: canvas_state_ptr
  local_view :: local_view
  preview :: preview_ptr
  local_queue :: "DP_Message list"
  remote_queue :: "DP_Message list"
  queue_sem :: int
  running :: bool
  catchup :: int
  next_preview :: preview_ptr
  meta_buffer :: DP_PaintEngineMetaBuffer

text \<open>
  What a function does to the world outside the engine struct is the list of its calls, in
  order: calls into the canvas history, releases of message references, disposals of
  previews, and calls of the callbacks it was handed. Logging and the reference counts of
  canvas states and layer props lists are left out.

  \<open>Message_decref\<close> is a call of \<^verbatim>\<open>DP_message_decref\<close> in the body of an engine function: it
  gives up the reference that a queue held on the message. \<open>Preview_dispose_free\<close> is the
  call through \<^verbatim>\<open>preview->dispose\<close> followed by \<^verbatim>\<open>DP_free\<close>, as one event; what the dispose
  function releases in turn (see \<open>preview_dispose_decrefs\<close> below) are the references that
  the preview itself holds.
\<close>

datatype event =
    Message_decref DP_Message
  | Preview_dispose_free preview_ptr
  | History_reset
  | History_soft_reset
  | History_snapshot
  | History_cleanup
  | History_handle DP_Message
  | History_handle_local DP_Message
  | History_handle_multidab_dec "DP_Message list"
  | History_handle_local_multidab_dec "DP_Message list"
  | Cb_acls_changed int
  | Cb_laser_trail "8 word" "8 word" "32 word"
  | Cb_move_pointer "8 word" int int
  | Cb_default_layer_set "16 word"
  | Cb_catchup int
  | Cb_resized int int int int
  | Cb_tile_changed int int
  | Cb_layer_props_changed layer_props_list_ptr
  | Cb_annotations_changed nat
  | Cb_document_metadata_changed nat
  | Cb_cursor_moved nat int int int

datatype error = Null_message

fun free_preview :: "preview_ptr \<Rightarrow> event list" where
  "free_preview NULL_preview = []"
| "free_preview Addr_null_preview = []"
| "free_preview (Preview_object ox oy k) = [Preview_dispose_free (Preview_object ox oy k)]"

definition DP_message_queue_shift :: "DP_Message list \<Rightarrow> DP_Message option \<times> DP_Message list" where
  "DP_message_queue_shift queue = (case queue of [] \<Rightarrow> (None, []) | m # rest \<Rightarrow> (Some m, rest))"

section \<open>The paint thread\<close>

fun handle_internal :: "'acl DP_PaintEngine \<Rightarrow> DP_MsgInternal \<Rightarrow> event list \<times> 'acl DP_PaintEngine" where
  "handle_internal pe DP_MSG_INTERNAL_TYPE_RESET = ([History_reset], pe)"
| "handle_internal pe DP_MSG_INTERNAL_TYPE_SOFT_RESET = ([History_soft_reset], pe)"
| "handle_internal pe DP_MSG_INTERNAL_TYPE_SNAPSHOT = ([History_snapshot], pe)"
| "handle_internal pe (DP_MSG_INTERNAL_TYPE_CATCHUP progress) = ([], pe\<lparr>catchup := progress\<rparr>)"
| "handle_internal pe DP_MSG_INTERNAL_TYPE_CLEANUP = ([History_cleanup], pe)"
| "handle_internal pe (DP_MSG_INTERNAL_TYPE_PREVIEW data) =
     (free_preview (next_preview pe), pe\<lparr>next_preview := data\<rparr>)"
| "handle_internal pe (DP_MSG_INTERNAL_TYPE_UNKNOWN t) = ([], pe)"

definition MAX_MULTIDAB_MESSAGES :: nat where
  "MAX_MULTIDAB_MESSAGES = 1024"

definition MAX_MULTIDAB_AREA :: int where
  "MAX_MULTIDAB_AREA = 256 * 256 * 16"

definition MAX_MULTIDAB_AREA_THRESHOLD :: int where
  "MAX_MULTIDAB_AREA_THRESHOLD = MAX_MULTIDAB_AREA div 2"

definition shift_first_message ::
  "'acl DP_PaintEngine \<Rightarrow> bool \<times> DP_Message option \<times> 'acl DP_PaintEngine" where
  "shift_first_message pe =
     (case DP_message_queue_shift (local_queue pe) of
        (Some msg, rest) \<Rightarrow> (True, Some msg, pe\<lparr>local_queue := rest\<rparr>)
      | (None, rest) \<Rightarrow>
          (case DP_message_queue_shift (remote_queue pe) of
             (m, rest') \<Rightarrow> (False, m, pe\<lparr>remote_queue := rest'\<rparr>)))"

text \<open>
  The three area loops stop as soon as the running total is no longer below the cap.
  The sizes are unsigned, so C's division by 256 is \<open>div\<close>; they are fields of the wire
  format of at most 16 bits, so no product or sum below leaves the range of \<^verbatim>\<open>int\<close>, and
  the arithmetic is that of the integers.
\<close>

fun get_classic_dabs_area :: "nat list \<Rightarrow> int \<Rightarrow> int" where
  "get_classic_dabs_area [] dabs_area = dabs_area"
| "get_classic_dabs_area (sz # cds) dabs_area =
     (if dabs_area < MAX_MULTIDAB_AREA then
        (let radius = int sz div 256;
             diameter = radius * 2;
             area = max 1 (diameter * diameter)
         in get_classic_dabs_area cds (dabs_area + area))
      else dabs_area)"

fun get_pixel_dabs_area :: "nat list \<Rightarrow> int \<Rightarrow> int" where
  "get_pixel_dabs_area [] dabs_area = dabs_area"
| "get_pixel_dabs_area (sz # pds) dabs_area =
     (if dabs_area < MAX_MULTIDAB_AREA then
        (let radius = int sz;
             diameter = radius * 2;
             area = max 1 (diameter * diameter)
         in get_pixel_dabs_area pds (dabs_area + area))
      else dabs_area)"

fun get_mypaint_dabs_area :: "nat list \<Rightarrow> int \<Rightarrow> int" where
  "get_mypaint_dabs_area [] dabs_area = dabs_area"
| "get_mypaint_dabs_area (sz # mpds) dabs_area =
     (if dabs_area < MAX_MULTIDAB_AREA then
        (let diameter = int sz div 256;
             area = max 1 (diameter * diameter)
         in get_mypaint_dabs_area mpds (dabs_area + area))
      else dabs_area)"

text \<open>
  Both callers pass \<^verbatim>\<open>DP_message_type(msg)\<close> as the type, so the switch on the type is the
  case distinction on the body.
\<close>

fun get_dabs_area_body :: "message_body \<Rightarrow> int \<Rightarrow> int" where
  "get_dabs_area_body (DrawDabsClassic cds) dabs_area = get_classic_dabs_area cds dabs_area"
| "get_dabs_area_body (DrawDabsPixel pds) dabs_area = get_pixel_dabs_area pds dabs_area"
| "get_dabs_area_body (DrawDabsPixelSquare pds) dabs_area = get_pixel_dabs_area pds dabs_area"
| "get_dabs_area_body (DrawDabsMyPaint mpds) dabs_area = get_mypaint_dabs_area mpds dabs_area"
| "get_dabs_area_body b dabs_area = MAX_MULTIDAB_AREA + 1"

definition get_dabs_area :: "DP_Message \<Rightarrow> int \<Rightarrow> int" where
  "get_dabs_area msg dabs_area = get_dabs_area_body (body msg) dabs_area"

text \<open>
  The loop of \<^verbatim>\<open>shift_more_draw_dabs_messages\<close>: \<open>msgs\<close> is the array filled so far
  (\<open>count\<close> elements), \<open>queue\<close> the queue being peeked. Peeking reads the head of the list
  (null when the list is empty) and \<^verbatim>\<open>DP_queue_shift\<close> drops it. The result is the count,
  the array and what is left of the queue.
\<close>

fun shift_more_loop ::
  "nat \<Rightarrow> int \<Rightarrow> DP_Message list \<Rightarrow> DP_Message list \<Rightarrow> nat \<times> DP_Message list \<times> DP_Message list" where
  "shift_more_loop count total_dabs_area msgs [] = (count, msgs, [])"
| "shift_more_loop count total_dabs_area msgs (msg # queue) =
     (if count < MAX_MULTIDAB_MESSAGES then
        (let total_dabs_area' = get_dabs_area msg total_dabs_area
         in if total_dabs_area' \<le> MAX_MULTIDAB_AREA
            then shift_more_loop (count + 1) total_dabs_area' (msgs @ [msg]) queue
            else (count, msgs, msg # queue))
      else (count, msgs, msg # queue))"

definition shift_more_draw_dabs_messages ::
  "'acl DP_PaintEngine \<Rightarrow> bool \<Rightarrow> DP_Message list \<Rightarrow> int
   \<Rightarrow> nat \<times> DP_Message list \<times> 'acl DP_PaintEngine" where
  "shift_more_draw_dabs_messages pe local msgs initial_dabs_area =
     (case shift_more_loop 1 initial_dabs_area msgs
             (if local then local_queue pe else remote_queue pe) of
        (count, msgs', queue') \<Rightarrow>
          (let pe1 = (if local then pe\<lparr>local_queue := queue'\<rparr> else pe\<lparr>remote_queue := queue'\<rparr>);
               pe2 = (if count > 1 then pe1\<lparr>queue_sem := queue_sem pe1 - (int count - 1)\<rparr> else pe1)
           in (count, msgs', pe2)))"

definition maybe_shift_more_messages ::
  "'acl DP_PaintEngine \<Rightarrow> bool \<Rightarrow> DP_Message list \<Rightarrow> nat \<times> DP_Message list \<times> 'acl DP_PaintEngine" where
  "maybe_shift_more_messages pe local msgs =
     (let dabs_area = get_dabs_area (msgs ! 0) 0
      in if dabs_area \<le> MAX_MULTIDAB_AREA_THRESHOLD
         then shift_more_draw_dabs_messages pe local msgs dabs_area
         else (1, msgs, pe))"

definition handle_single_message ::
  "'acl DP_PaintEngine \<Rightarrow> bool \<Rightarrow> DP_Message \<Rightarrow> event list \<times> 'acl DP_PaintEngine" where
  "handle_single_message pe local msg =
     (case body msg of
        Internal mi \<Rightarrow>
          (case handle_internal pe mi of (evs, pe') \<Rightarrow> (evs @ [Message_decref msg], pe'))
      | _ \<Rightarrow>
          (if local then ([History_handle_local msg, Message_decref msg], pe)
           else ([History_handle msg, Message_decref msg], pe)))"

definition handle_multidab :: "bool \<Rightarrow> DP_Message list \<Rightarrow> event list" where
  "handle_multidab local msgs =
     (if local then [History_handle_local_multidab_dec msgs]
      else [History_handle_multidab_dec msgs])"

text \<open>
  \<^verbatim>\<open>handle_message\<close>. With both queues empty the first message is a null pointer and
  \<^verbatim>\<open>DP_message_type\<close> dereferences it: that is the error \<open>Null_message\<close>. The semaphore,
  which the paint thread waits on before each call, keeps the call from happening then.
\<close>

definition handle_message :: "'acl DP_PaintEngine \<Rightarrow> error + (event list \<times> 'acl DP_PaintEngine)" where
  "handle_message pe =
     (case shift_first_message pe of
        (local, None, pe1) \<Rightarrow> Inl Null_message
      | (local, Some first, pe1) \<Rightarrow>
          (case maybe_shift_more_messages pe1 local [first] of
             (count, msgs, pe2) \<Rightarrow>
               (if count = 1
                then (case handle_single_message pe2 local first of (evs, pe3) \<Rightarrow> Inr (evs, pe3))
                else Inr (handle_multidab local (take count msgs), pe2))))"


subsection \<open>The claimed area of a batch\<close>

text \<open>
  The estimate as the specification words it: the sum, over all dabs of all messages of the
  batch, of \<open>max(1, diameter\<^sup>2)\<close>, with the diameter of each family. It is stated next to
  the code above, which stops counting early.
\<close>

fun dab_areas_spec :: "message_body \<Rightarrow> int list" where
  "dab_areas_spec (DrawDabsClassic cds) = map (\<lambda>sz. max 1 ((int sz div 256 * 2) * (int sz div 256 * 2))) cds"
| "dab_areas_spec (DrawDabsPixel pds) = map (\<lambda>sz. max 1 ((int sz * 2) * (int sz * 2))) pds"
| "dab_areas_spec (DrawDabsPixelSquare pds) = map (\<lambda>sz. max 1 ((int sz * 2) * (int sz * 2))) pds"
| "dab_areas_spec (DrawDabsMyPaint mpds) = map (\<lambda>sz. max 1 ((int sz div 256) * (int sz div 256))) mpds"
| "dab_areas_spec b = []"

definition batch_dab_areas_spec :: "DP_Message list \<Rightarrow> int list" where
  "batch_dab_areas_spec msgs = concat (map (\<lambda>msg. dab_areas_spec (body msg)) msgs)"

definition batch_area_spec :: "DP_Message list \<Rightarrow> int" where
  "batch_area_spec msgs = sum_list (batch_dab_areas_spec msgs)"

text \<open>
  What the running total of the batching loop stands for: \<open>tot\<close> is at most the cap and is
  the area of the first \<open>n\<close> dabs of the messages taken so far; dabs are left uncounted only
  when the total stands at the cap exactly.
\<close>

definition area_counted :: "int \<Rightarrow> DP_Message list \<Rightarrow> bool" where
  "area_counted tot msgs =
     (tot \<le> MAX_MULTIDAB_AREA
      \<and> (\<exists>n\<le>length (batch_dab_areas_spec msgs).
            tot = sum_list (take n (batch_dab_areas_spec msgs))
            \<and> (n < length (batch_dab_areas_spec msgs) \<longrightarrow> tot = MAX_MULTIDAB_AREA)))"

section \<open>Construction and teardown\<close>

text \<open>
  \<^verbatim>\<open>DP_paint_engine_new_inc\<close>: \<open>cs\<close> is the address of the empty canvas state it creates and
  \<open>buffers\<close> the content of the freshly allocated flexible buffer, which is not initialised.
\<close>

definition DP_paint_engine_new_inc ::
  "'acl \<Rightarrow> canvas_state_ptr \<Rightarrow> DP_PaintEngineMetaBuffer \<Rightarrow> 'acl DP_PaintEngine" where
  "DP_paint_engine_new_inc acls0 cs buffers =
     \<lparr>acls = acls0,
      history_cs = cs,
      view_cs = cs,
      local_view =
        \<lparr>active_layer_id = 0,
         active_frame_index = 0,
         layer_view_mode = DP_LAYER_VIEW_MODE_NORMAL,
         reveal_censored = False,
         inspect_context_id = 0,
         hidden_layers = [],
         prev_lpl = None,
         lpl = None\<rparr>,
      preview = NULL_preview,
      local_queue = [],
      remote_queue = [],
      queue_sem = 0,
      running = True,
      catchup = - 1,
      next_preview = NULL_preview,
      meta_buffer = buffers\<rparr>"

text \<open>A flexible buffer whose bytes are all zero, for use in examples.\<close>

definition zero_meta_buffer :: DP_PaintEngineMetaBuffer where
  "zero_meta_buffer =
     \<lparr>acl_change_flags = 0,
      have_default_layer = False,
      default_layer = 0,
      laser_changes =
        \<lparr>laser_count = 0,
         laser_users = (\<lambda>i. 0),
         laser_active = (\<lambda>c. False),
         laser_buffers = (\<lambda>c. \<lparr>lb_persistence = 0, lb_b = 0, lb_g = 0, lb_r = 0, lb_a = 0\<rparr>)\<rparr>,
      cursor_changes =
        \<lparr>cursor_count = 0,
         cursor_users = (\<lambda>i. 0),
         cursor_active = (\<lambda>c. False),
         cursor_positions = (\<lambda>c. (0, 0))\<rparr>\<rparr>"

text \<open>
  Modelled from the spec: \<^verbatim>\<open>DP_message_queue_dispose\<close> of \<^verbatim>\<open>dpmsg/message_queue.c\<close>, which is
  not part of the sources at hand. \<^verbatim>\<open>DP_paint_engine_free_join\<close> hands the remote queue to
  this function and has no loop of its own over that queue, so what the spec says of the
  drain is what the function does there. The spec has teardown drain "both queues
  (decrementing refcounts; disposing any preview-install internal messages)", and asks that
  "enqueued but unconsumed messages must still be decref'd by the drainer; preview-install
  internals must dispose their payload". So, for each message left in the queue, the function
  disposes the preview that the message installs, if it installs one, and releases one
  reference of the message.
\<close>

fun DP_message_queue_dispose :: "DP_Message list \<Rightarrow> event list" where
  "DP_message_queue_dispose [] = []"
| "DP_message_queue_dispose (msg # queue) =
     (case body msg of
        Internal (DP_MSG_INTERNAL_TYPE_PREVIEW data) \<Rightarrow> free_preview data
      | _ \<Rightarrow> [])
     @ [Message_decref msg] @ DP_message_queue_dispose queue"

text \<open>The loop of \<^verbatim>\<open>DP_paint_engine_free_join\<close> that shifts the local queue until it is empty.\<close>

fun free_join_drain :: "DP_Message list \<Rightarrow> event list" where
  "free_join_drain [] = []"
| "free_join_drain (msg # queue) =
     (case body msg of
        Internal (DP_MSG_INTERNAL_TYPE_PREVIEW data) \<Rightarrow> free_preview data
      | _ \<Rightarrow> [])
     @ [Message_decref msg] @ free_join_drain queue"

text \<open>
  \<^verbatim>\<open>DP_paint_engine_free_join\<close>, called on the engine as it is once the paint thread has been
  joined; a null engine is \<open>None\<close>. The result is what it releases, in order.
\<close>

definition DP_paint_engine_free_join :: "'acl DP_PaintEngine option \<Rightarrow> event list" where
  "DP_paint_engine_free_join pe_or_null =
     (case pe_or_null of
        None \<Rightarrow> []
      | Some pe \<Rightarrow>
          free_preview (next_preview pe)
          @ DP_message_queue_dispose (remote_queue pe)
          @ free_join_drain (local_queue pe)
          @ DP_message_queue_dispose []
          @ free_preview (preview pe))"




text \<open>
  The two dispose functions of the engine. \<^verbatim>\<open>dabs_preview_dispose\<close> calls
  \<^verbatim>\<open>DP_message_decref\<close> on the first \<open>count\<close> messages that the preview holds;
  \<^verbatim>\<open>cut_preview_dispose\<close> releases a layer props and a layer content and no message. The
  function gives the messages released, in order.
\<close>

fun preview_dispose_decrefs :: "preview_ptr \<Rightarrow> DP_Message list" where
  "preview_dispose_decrefs (Preview_object ox oy (DabsPreview layer_id count messages)) =
     take (nat count) messages"
| "preview_dispose_decrefs p = []"

text \<open>
  Every call of \<^verbatim>\<open>DP_message_decref\<close> that a trace stands for, in order: those of the engine
  functions and those made inside the disposal of a preview.
\<close>

fun all_message_decrefs :: "event list \<Rightarrow> DP_Message list" where
  "all_message_decrefs [] = []"
| "all_message_decrefs (Message_decref msg # evs) = msg # all_message_decrefs evs"
| "all_message_decrefs (Preview_dispose_free p # evs) =
     preview_dispose_decrefs p @ all_message_decrefs evs"
| "all_message_decrefs (ev # evs) = all_message_decrefs evs"

text \<open>
  What the drain of a queue releases in all: for each message, the messages held by the
  preview it installs, if any, and then the message itself.
\<close>

fun drained_decrefs :: "DP_Message list \<Rightarrow> DP_Message list" where
  "drained_decrefs [] = []"
| "drained_decrefs (msg # queue) =
     (case body msg of
        Internal (DP_MSG_INTERNAL_TYPE_PREVIEW data) \<Rightarrow> preview_dispose_decrefs data
      | _ \<Rightarrow> [])
     @ [msg] @ drained_decrefs queue"


section \<open>Intake: \<^verbatim>\<open>DP_paint_engine_handle_inc\<close>\<close>

definition is_internal_or_command :: "DP_MessageType \<Rightarrow> bool" where
  "is_internal_or_command type = (message_type_value type \<ge> 128 \<or> type = DP_MSG_INTERNAL)"

text \<open>
  \<^verbatim>\<open>DP_uint_to_uint8\<close> casts an \<^verbatim>\<open>unsigned int\<close> to \<^verbatim>\<open>uint8_t\<close>. The union
  \<^verbatim>\<open>DP_UPixel8\<close> lays a 32-bit colour over the four channel bytes b, g, r, a, lowest byte
  first.
\<close>

definition DP_uint_to_uint8 :: "nat \<Rightarrow> 8 word" where
  "DP_uint_to_uint8 x = of_nat x"

definition upixel8_b :: "32 word \<Rightarrow> 8 word" where
  "upixel8_b c = ucast c"

definition upixel8_g :: "32 word \<Rightarrow> 8 word" where
  "upixel8_g c = ucast (drop_bit 8 c)"

definition upixel8_r :: "32 word \<Rightarrow> 8 word" where
  "upixel8_r c = ucast (drop_bit 16 c)"

definition upixel8_a :: "32 word \<Rightarrow> 8 word" where
  "upixel8_a c = ucast (drop_bit 24 c)"

definition upixel8_color :: "8 word \<Rightarrow> 8 word \<Rightarrow> 8 word \<Rightarrow> 8 word \<Rightarrow> 32 word" where
  "upixel8_color b g r a =
     ucast b OR push_bit 8 (ucast g) OR push_bit 16 (ucast r) OR push_bit 24 (ucast a)"

definition handle_laser_trail :: "'acl DP_PaintEngine \<Rightarrow> DP_Message \<Rightarrow> 'acl DP_PaintEngine" where
  "handle_laser_trail pe msg =
     (let cid = DP_uint_to_uint8 (context_id msg);
          laser = laser_changes (meta_buffer pe);
          count = unat (laser_count laser);
          laser1 =
            (if count = 0 then
               laser\<lparr>laser_active := (\<lambda>c. False),
                     laser_users := (laser_users laser)(0 := cid),
                     laser_count := 1\<rparr>
             else if \<not> laser_active laser cid then
               laser\<lparr>laser_active := (laser_active laser)(cid := True),
                     laser_users := (laser_users laser)(count := cid),
                     laser_count := laser_count laser + 1\<rparr>
             else laser);
          pixel = color (body msg);
          laser2 =
            laser1\<lparr>laser_buffers := (laser_buffers laser1)
              (cid := \<lparr>lb_persistence = persistence (body msg),
                       lb_b = upixel8_b pixel, lb_g = upixel8_g pixel,
                       lb_r = upixel8_r pixel, lb_a = upixel8_a pixel\<rparr>)\<rparr>
      in pe\<lparr>meta_buffer := (meta_buffer pe)\<lparr>laser_changes := laser2\<rparr>\<rparr>)"

definition handle_move_pointer :: "'acl DP_PaintEngine \<Rightarrow> DP_Message \<Rightarrow> 'acl DP_PaintEngine" where
  "handle_move_pointer pe msg =
     (let cid = DP_uint_to_uint8 (context_id msg);
          cursor = cursor_changes (meta_buffer pe);
          count = unat (cursor_count cursor);
          cursor1 =
            (if count = 0 then
               cursor\<lparr>cursor_active := (\<lambda>c. False),
                      cursor_users := (cursor_users cursor)(0 := cid),
                      cursor_count := 1\<rparr>
             else if \<not> cursor_active cursor cid then
               cursor\<lparr>cursor_active := (cursor_active cursor)(cid := True),
                      cursor_users := (cursor_users cursor)(count := cid),
                      cursor_count := cursor_count cursor + 1\<rparr>
             else cursor);
          cursor2 =
            cursor1\<lparr>cursor_positions := (cursor_positions cursor1)
              (cid := (pointer_x (body msg), pointer_y (body msg)))\<rparr>
      in pe\<lparr>meta_buffer := (meta_buffer pe)\<lparr>cursor_changes := cursor2\<rparr>\<rparr>)"

definition handle_default_layer :: "'acl DP_PaintEngine \<Rightarrow> DP_Message \<Rightarrow> 'acl DP_PaintEngine" where
  "handle_default_layer pe msg =
     pe\<lparr>meta_buffer := (meta_buffer pe)
          \<lparr>have_default_layer := True, default_layer := default_layer_id (body msg)\<rparr>\<rparr>"

text \<open>
  Modelled from the spec: \<^verbatim>\<open>DP_ACL_STATE_FILTERED_BIT\<close> of \<^verbatim>\<open>dpmsg/acl.h\<close> (not part of the
  sources at hand), which the spec gives as \<^verbatim>\<open>0x01\<close>.
\<close>

definition DP_ACL_STATE_FILTERED_BIT :: "8 word" where
  "DP_ACL_STATE_FILTERED_BIT = 1"

text \<open>
  The ACL state machine is a parameter: \<open>acl_handle\<close> is \<^verbatim>\<open>DP_acl_state_handle\<close>, from the
  state and a message to the result bits and the next state.
\<close>

definition should_push_message_remote ::
  "('acl \<Rightarrow> DP_Message \<Rightarrow> 8 word \<times> 'acl) \<Rightarrow> 'acl DP_PaintEngine \<Rightarrow> DP_Message
   \<Rightarrow> bool \<times> 'acl DP_PaintEngine" where
  "should_push_message_remote acl_handle pe msg =
     (case acl_handle (acls pe) msg of
        (result, acls') \<Rightarrow>
          (let pe1 = pe\<lparr>acls := acls',
                        meta_buffer := (meta_buffer pe)
                          \<lparr>acl_change_flags := acl_change_flags (meta_buffer pe) OR result\<rparr>\<rparr>
           in if result AND DP_ACL_STATE_FILTERED_BIT = 0 then
                (let type = DP_message_type msg
                 in if is_internal_or_command type then (True, pe1)
                    else if type = DP_MSG_LASER_TRAIL then (False, handle_laser_trail pe1 msg)
                    else if type = DP_MSG_MOVE_POINTER then (False, handle_move_pointer pe1 msg)
                    else if type = DP_MSG_DEFAULT_LAYER then (False, handle_default_layer pe1 msg)
                    else (False, pe1))
              else (False, pe1)))"

definition should_push_message_local ::
  "'acl DP_PaintEngine \<Rightarrow> DP_Message \<Rightarrow> bool \<times> 'acl DP_PaintEngine" where
  "should_push_message_local pe msg = (is_internal_or_command (DP_message_type msg), pe)"

text \<open>The queue argument of \<^verbatim>\<open>push_messages\<close> is one of the two queues: \<open>local\<close> says which.\<close>

definition DP_message_queue_push_inc ::
  "bool \<Rightarrow> 'acl DP_PaintEngine \<Rightarrow> DP_Message \<Rightarrow> 'acl DP_PaintEngine" where
  "DP_message_queue_push_inc local pe msg =
     (if local then pe\<lparr>local_queue := local_queue pe @ [msg]\<rparr>
      else pe\<lparr>remote_queue := remote_queue pe @ [msg]\<rparr>)"

fun push_messages_loop ::
  "('acl DP_PaintEngine \<Rightarrow> DP_Message \<Rightarrow> bool \<times> 'acl DP_PaintEngine) \<Rightarrow> bool
   \<Rightarrow> 'acl DP_PaintEngine \<Rightarrow> nat \<Rightarrow> DP_Message list \<Rightarrow> nat \<times> 'acl DP_PaintEngine" where
  "push_messages_loop should_push local pe pushed [] = (pushed, pe)"
| "push_messages_loop should_push local pe pushed (msg # msgs) =
     (case should_push pe msg of
        (True, pe1) \<Rightarrow>
          push_messages_loop should_push local (DP_message_queue_push_inc local pe1 msg) (pushed + 1) msgs
      | (False, pe1) \<Rightarrow> push_messages_loop should_push local pe1 pushed msgs)"

definition push_messages ::
  "('acl DP_PaintEngine \<Rightarrow> DP_Message \<Rightarrow> bool \<times> 'acl DP_PaintEngine) \<Rightarrow> bool
   \<Rightarrow> 'acl DP_PaintEngine \<Rightarrow> DP_Message list \<Rightarrow> nat \<times> 'acl DP_PaintEngine" where
  "push_messages should_push local pe msgs =
     (case push_messages_loop should_push local
             (DP_message_queue_push_inc local pe (msgs ! 0)) 1 (drop 1 msgs) of
        (pushed, pe1) \<Rightarrow> (pushed, pe1\<lparr>queue_sem := queue_sem pe1 + int pushed\<rparr>))"

text \<open>
  The first loop of \<^verbatim>\<open>DP_paint_engine_handle_inc\<close>, over \<^verbatim>\<open>msgs + i\<close>: it asks
  \<^verbatim>\<open>should_push\<close> about the message in front and, at the first yes, hands what is left of the
  array, that message included, to \<^verbatim>\<open>push_messages\<close>.
\<close>

fun handle_inc_loop ::
  "('acl DP_PaintEngine \<Rightarrow> DP_Message \<Rightarrow> bool \<times> 'acl DP_PaintEngine) \<Rightarrow> bool
   \<Rightarrow> 'acl DP_PaintEngine \<Rightarrow> DP_Message list \<Rightarrow> nat \<times> 'acl DP_PaintEngine" where
  "handle_inc_loop should_push local pe [] = (0, pe)"
| "handle_inc_loop should_push local pe (msg # msgs) =
     (case should_push pe msg of
        (True, pe1) \<Rightarrow> push_messages should_push local pe1 (msg # msgs)
      | (False, pe1) \<Rightarrow> handle_inc_loop should_push local pe1 msgs)"

definition laser_trail_calls :: "DP_PaintEngineLaserChanges \<Rightarrow> event list" where
  "laser_trail_calls laser =
     map (\<lambda>i. let cid = laser_users laser i;
                   lb = laser_buffers laser cid
               in Cb_laser_trail cid (lb_persistence lb)
                    (upixel8_color (lb_b lb) (lb_g lb) (lb_r lb) (lb_a lb)))
       [0 ..< unat (laser_count laser)]"

definition move_pointer_calls :: "DP_PaintEngineCursorChanges \<Rightarrow> event list" where
  "move_pointer_calls cursor =
     map (\<lambda>i. let cid = cursor_users cursor i;
                   cp = cursor_positions cursor cid
               in Cb_move_pointer cid (fst cp) (snd cp))
       [0 ..< unat (cursor_count cursor)]"

text \<open>
  \<^verbatim>\<open>DP_paint_engine_handle_inc\<close>. \<open>change_mask\<close> is \<^verbatim>\<open>DP_ACL_STATE_CHANGE_MASK\<close>, a constant
  of \<^verbatim>\<open>dpmsg/acl.h\<close>. The result is the number of messages pushed, the callbacks called, in
  order, and the engine.
\<close>

definition DP_paint_engine_handle_inc ::
  "('acl \<Rightarrow> DP_Message \<Rightarrow> 8 word \<times> 'acl) \<Rightarrow> 8 word \<Rightarrow> 'acl DP_PaintEngine \<Rightarrow> bool
   \<Rightarrow> DP_Message list \<Rightarrow> nat \<times> event list \<times> 'acl DP_PaintEngine" where
  "DP_paint_engine_handle_inc acl_handle change_mask pe local msgs =
     (let should_push =
            (if local then should_push_message_local else should_push_message_remote acl_handle);
          mb0 = meta_buffer pe;
          pe0 = pe\<lparr>meta_buffer := mb0
                  \<lparr>acl_change_flags := 0,
                   laser_changes := (laser_changes mb0)\<lparr>laser_count := 0\<rparr>,
                   cursor_changes := (cursor_changes mb0)\<lparr>cursor_count := 0\<rparr>,
                   have_default_layer := False\<rparr>\<rparr>
      in case handle_inc_loop should_push local pe0 msgs of
           (pushed, pe1) \<Rightarrow>
             (let mb = meta_buffer pe1;
                  flags = acl_change_flags mb AND change_mask
              in (pushed,
                  (if flags \<noteq> 0 then [Cb_acls_changed (uint flags)] else [])
                  @ laser_trail_calls (laser_changes mb)
                  @ move_pointer_calls (cursor_changes mb)
                  @ (if have_default_layer mb then [Cb_default_layer_set (default_layer mb)] else []),
                  pe1)))"


section \<open>Local view setters\<close>

definition invalidate_local_view :: "'acl DP_PaintEngine \<Rightarrow> 'acl DP_PaintEngine" where
  "invalidate_local_view pe = pe\<lparr>local_view := (local_view pe)\<lparr>prev_lpl := None\<rparr>\<rparr>"

definition DP_paint_engine_active_layer_id_set :: "'acl DP_PaintEngine \<Rightarrow> int \<Rightarrow> 'acl DP_PaintEngine" where
  "DP_paint_engine_active_layer_id_set pe layer_id =
     (if active_layer_id (local_view pe) \<noteq> layer_id then
        (let pe1 = pe\<lparr>local_view := (local_view pe)\<lparr>active_layer_id := layer_id\<rparr>\<rparr>
         in if layer_view_mode (local_view pe1) \<noteq> DP_LAYER_VIEW_MODE_NORMAL
            then invalidate_local_view pe1
            else pe1)
      else pe)"

definition DP_paint_engine_view_mode_set ::
  "'acl DP_PaintEngine \<Rightarrow> DP_LayerViewMode \<Rightarrow> 'acl DP_PaintEngine" where
  "DP_paint_engine_view_mode_set pe mode =
     (if layer_view_mode (local_view pe) \<noteq> mode then
        invalidate_local_view (pe\<lparr>local_view := (local_view pe)\<lparr>layer_view_mode := mode\<rparr>\<rparr>)
      else pe)"

section \<open>The view composer: \<^verbatim>\<open>DP_paint_engine_tick\<close>\<close>

text \<open>
  Canvas states, layer props lists, annotation lists and document metadata are objects of
  the canvas state library; the engine holds their addresses and compares them. What the
  library computes is a parameter of the model, one field for each entry point the tick
  goes through:
  \<^item> the readers of a canvas state;
  \<^item> \<open>preview_render\<close>, the call through \<^verbatim>\<open>preview->render\<close>;
  \<^item> \<open>inspect_overlay\<close>, the transient state that \<^verbatim>\<open>apply_inspect\<close> builds for a context id;
  \<^item> \<open>layer_props_set_inc\<close>, the transient state with the given layer props list put in;
  \<^item> \<open>layer_props_overlay\<close>, the transient state that \<^verbatim>\<open>set_local_layer_props\<close> builds from the
    local view, with the address of the persisted root layer props list and the hidden layer
    ids that are left after the purge;
  \<^item> \<open>canvas_state_diff\<close>, the changed tile positions and the layer props flag of the diff.
\<close>

record canvas_ops =
  canvas_state_offset_x :: "canvas_state_ptr \<Rightarrow> int"
  canvas_state_offset_y :: "canvas_state_ptr \<Rightarrow> int"
  canvas_state_width :: "canvas_state_ptr \<Rightarrow> int"
  canvas_state_height :: "canvas_state_ptr \<Rightarrow> int"
  canvas_state_layer_props :: "canvas_state_ptr \<Rightarrow> layer_props_list_ptr"
  canvas_state_annotations :: "canvas_state_ptr \<Rightarrow> nat"
  canvas_state_metadata :: "canvas_state_ptr \<Rightarrow> nat"
  preview_render :: "preview_ptr \<Rightarrow> canvas_state_ptr \<Rightarrow> int \<Rightarrow> int \<Rightarrow> canvas_state_ptr"
  inspect_overlay :: "nat \<Rightarrow> canvas_state_ptr \<Rightarrow> canvas_state_ptr"
  layer_props_set_inc :: "canvas_state_ptr \<Rightarrow> layer_props_list_ptr option \<Rightarrow> canvas_state_ptr"
  layer_props_overlay ::
    "local_view \<Rightarrow> canvas_state_ptr \<Rightarrow> canvas_state_ptr \<times> layer_props_list_ptr \<times> int list"
  canvas_state_diff :: "canvas_state_ptr \<Rightarrow> canvas_state_ptr \<Rightarrow> (int \<times> int) list \<times> bool"

definition apply_preview :: "canvas_ops \<Rightarrow> 'acl DP_PaintEngine \<Rightarrow> canvas_state_ptr \<Rightarrow> canvas_state_ptr" where
  "apply_preview ops pe cs =
     (if preview pe \<noteq> NULL_preview then
        preview_render ops (preview pe) cs
          (initial_offset_x (preview pe) - canvas_state_offset_x ops cs)
          (initial_offset_y (preview pe) - canvas_state_offset_y ops cs)
      else cs)"

definition apply_inspect :: "canvas_ops \<Rightarrow> 'acl DP_PaintEngine \<Rightarrow> canvas_state_ptr \<Rightarrow> canvas_state_ptr" where
  "apply_inspect ops pe cs =
     (let cid = inspect_context_id (local_view pe)
      in if cid = 0 then cs else inspect_overlay ops cid cs)"

definition set_local_layer_props ::
  "canvas_ops \<Rightarrow> 'acl DP_PaintEngine \<Rightarrow> canvas_state_ptr \<Rightarrow> canvas_state_ptr \<times> 'acl DP_PaintEngine" where
  "set_local_layer_props ops pe cs =
     (case layer_props_overlay ops (local_view pe) cs of
        (tcs, root, hidden) \<Rightarrow>
          (tcs, pe\<lparr>local_view := (local_view pe)\<lparr>hidden_layers := hidden, lpl := Some root\<rparr>\<rparr>))"

definition apply_local_layer_props ::
  "canvas_ops \<Rightarrow> 'acl DP_PaintEngine \<Rightarrow> canvas_state_ptr \<Rightarrow> canvas_state_ptr \<times> 'acl DP_PaintEngine" where
  "apply_local_layer_props ops pe cs =
     (let cur = canvas_state_layer_props ops cs
      in if prev_lpl (local_view pe) = Some cur then
           (let keep_layer_props =
                  (layer_view_mode (local_view pe) = DP_LAYER_VIEW_MODE_NORMAL
                   \<and> \<not> reveal_censored (local_view pe)
                   \<and> length (hidden_layers (local_view pe)) = 0)
            in if keep_layer_props then (cs, pe)
               else (layer_props_set_inc ops cs (lpl (local_view pe)), pe))
         else
           set_local_layer_props ops
             (pe\<lparr>local_view := (local_view pe)\<lparr>prev_lpl := Some cur\<rparr>\<rparr>) cs)"

text \<open>
  \<^verbatim>\<open>emit_changes\<close>; \<open>ucb\<close> is the user cursor buffer that the history filled: context id,
  layer id, x and y of each cursor.
\<close>

definition emit_changes ::
  "canvas_ops \<Rightarrow> canvas_state_ptr \<Rightarrow> canvas_state_ptr \<Rightarrow> (nat \<times> int \<times> int \<times> int) list \<Rightarrow> event list" where
  "emit_changes ops prev cs ucb =
     (let prev_width = canvas_state_width ops prev;
          prev_height = canvas_state_height ops prev;
          width = canvas_state_width ops cs;
          height = canvas_state_height ops cs;
          al = canvas_state_annotations ops cs;
          dm = canvas_state_metadata ops cs
      in (if prev_width \<noteq> width \<or> prev_height \<noteq> height then
            [Cb_resized (canvas_state_offset_x ops prev - canvas_state_offset_x ops cs)
                        (canvas_state_offset_y ops prev - canvas_state_offset_y ops cs)
                        prev_width prev_height]
          else [])
         @ (case canvas_state_diff ops cs prev of
              (positions, layer_props_changed) \<Rightarrow>
                map (\<lambda>(x, y). Cb_tile_changed x y) positions
                @ (if layer_props_changed
                   then [Cb_layer_props_changed (canvas_state_layer_props ops cs)] else []))
         @ (if al \<noteq> canvas_state_annotations ops prev then [Cb_annotations_changed al] else [])
         @ (if dm \<noteq> canvas_state_metadata ops prev then [Cb_document_metadata_changed dm] else [])
         @ map (\<lambda>(c, l, x, y). Cb_cursor_moved c l x y) ucb)"

text \<open>
  \<^verbatim>\<open>DP_paint_engine_tick\<close>. What \<^verbatim>\<open>DP_canvas_history_compare_and_get\<close> answers is an input:
  \<open>next_history_cs\<close> is the new state or null, \<open>ucb\<close> the cursors it wrote. It writes them
  into the flexible buffer of the engine, the memory that the intake uses as its meta
  buffer: \<open>buffers\<close> is that memory after the call, read as a meta buffer. The result is the
  calls made (callbacks and the disposal of a displaced preview), in order, and the engine.
\<close>

definition DP_paint_engine_tick ::
  "canvas_ops \<Rightarrow> canvas_state_ptr option \<Rightarrow> (nat \<times> int \<times> int \<times> int) list
   \<Rightarrow> DP_PaintEngineMetaBuffer \<Rightarrow> 'acl DP_PaintEngine
   \<Rightarrow> event list \<times> 'acl DP_PaintEngine" where
  "DP_paint_engine_tick ops next_history_cs ucb buffers pe =
     (let progress = catchup pe;
          pe1 = pe\<lparr>catchup := - 1\<rparr>;
          evs1 = (if progress \<noteq> - 1 then [Cb_catchup progress] else []);
          pe2 = (case next_history_cs of
                   Some cs \<Rightarrow> pe1\<lparr>meta_buffer := buffers, history_cs := cs\<rparr>
                 | None \<Rightarrow> pe1\<lparr>meta_buffer := buffers\<rparr>);
          nxt = next_preview pe2;
          pe3 = pe2\<lparr>next_preview := NULL_preview\<rparr>;
          evs2 = (if nxt \<noteq> NULL_preview then free_preview (preview pe3) else []);
          pe4 = (if nxt \<noteq> NULL_preview
                 then pe3\<lparr>preview := (if nxt = Addr_null_preview then NULL_preview else nxt)\<rparr>
                 else pe3);
          local_view_changed = (prev_lpl (local_view pe4) = None)
      in if next_history_cs \<noteq> None \<or> nxt \<noteq> NULL_preview \<or> local_view_changed then
           (let prev_view_cs = view_cs pe4
            in case apply_local_layer_props ops pe4
                      (apply_inspect ops pe4 (apply_preview ops pe4 (history_cs pe4))) of
                 (next_view_cs, pe5) \<Rightarrow>
                   (evs1 @ evs2 @ emit_changes ops prev_view_cs next_view_cs ucb,
                    pe5\<lparr>view_cs := next_view_cs\<rparr>))
         else (evs1 @ evs2, pe4))"

section \<open>Previews\<close>

text \<open>
  \<^verbatim>\<open>sync_preview\<close> wraps the preview in an internal message of context id 0 and pushes it on
  the local queue, posting the semaphore once.
\<close>

definition sync_preview :: "'acl DP_PaintEngine \<Rightarrow> preview_ptr \<Rightarrow> 'acl DP_PaintEngine" where
  "sync_preview pe p =
     pe\<lparr>local_queue := local_queue pe @ [Message 0 (Internal (DP_MSG_INTERNAL_TYPE_PREVIEW p))],
        queue_sem := queue_sem pe + 1\<rparr>"

text \<open>
  \<^verbatim>\<open>set_preview\<close> fills in the parent part of the preview object it is given (the offsets of
  the current view and the two function pointers); \<open>k\<close> is the rest of the object.
\<close>

definition set_preview :: "canvas_ops \<Rightarrow> 'acl DP_PaintEngine \<Rightarrow> preview_kind \<Rightarrow> 'acl DP_PaintEngine" where
  "set_preview ops pe k =
     sync_preview pe
       (Preview_object (canvas_state_offset_x ops (view_cs pe))
                       (canvas_state_offset_y ops (view_cs pe)) k)"

text \<open>
  \<^verbatim>\<open>DP_paint_engine_preview_dabs_inc\<close>: the new preview object holds the layer id, the count
  and the first \<open>count\<close> messages, each with one more reference.
\<close>

definition DP_paint_engine_preview_dabs_inc ::
  "canvas_ops \<Rightarrow> 'acl DP_PaintEngine \<Rightarrow> int \<Rightarrow> int \<Rightarrow> DP_Message list \<Rightarrow> 'acl DP_PaintEngine" where
  "DP_paint_engine_preview_dabs_inc ops pe layer_id count messages =
     (if count > 0
      then set_preview ops pe (DabsPreview layer_id count (take (nat count) messages))
      else pe)"

definition DP_paint_engine_preview_clear :: "'acl DP_PaintEngine \<Rightarrow> 'acl DP_PaintEngine" where
  "DP_paint_engine_preview_clear pe = sync_preview pe Addr_null_preview"

text \<open>Canvas operations for use in examples: every state is 64 by 64 at offset 0.\<close>

definition example_ops :: canvas_ops where
  "example_ops =
     \<lparr>canvas_state_offset_x = (\<lambda>cs. 0),
      canvas_state_offset_y = (\<lambda>cs. 0),
      canvas_state_width = (\<lambda>cs. 64),
      canvas_state_height = (\<lambda>cs. 64),
      canvas_state_layer_props = (\<lambda>cs. cs + 1000),
      canvas_state_annotations = (\<lambda>cs. cs + 2000),
      canvas_state_metadata = (\<lambda>cs. cs + 3000),
      preview_render = (\<lambda>p cs dx dy. cs + 1),
      inspect_overlay = (\<lambda>cid cs. cs + 2),
      layer_props_set_inc = (\<lambda>cs l. cs + 3),
      layer_props_overlay = (\<lambda>lv cs. (cs + 4, cs + 1004, hidden_layers lv)),
      canvas_state_diff = (\<lambda>cs prev. ([(0, 0)], True))\<rparr>"


section \<open>Local layer props\<close>

text \<open>
  Of a \<^verbatim>\<open>DP_LayerProps\<close> the traversal reads the id, the censored flag and the child list,
  which is null for a layer that is not a group.
\<close>

datatype DP_LayerProps =
  LayerProps (layer_props_id: int) (layer_props_censored: bool)
             (layer_props_children: "DP_LayerProps list option")

text \<open>
  The traversal changes the transient canvas state through two setters, each on the
  transient layer props that the layer routes find at the index path held in the draw
  context. A call is recorded with that path.
\<close>

datatype layer_props_call =
    Hidden_by_view_mode_set "nat list"
  | Censored_set "nat list"

text \<open>
  \<^verbatim>\<open>set_local_view_layer_props_recursive\<close>: \<open>indexes\<close> is the index stack of the draw context
  at the call. The loop function is the \<^verbatim>\<open>for\<close> loop from index \<open>i\<close> on, over the elements
  of the list from there.
\<close>

fun set_local_view_layer_props_recursive ::
    "nat list \<Rightarrow> int \<Rightarrow> DP_LayerViewMode \<Rightarrow> bool \<Rightarrow> DP_LayerProps list \<Rightarrow> layer_props_call list"
  and set_local_view_layer_props_loop ::
    "nat list \<Rightarrow> int \<Rightarrow> DP_LayerViewMode \<Rightarrow> bool \<Rightarrow> nat \<Rightarrow> DP_LayerProps list \<Rightarrow> layer_props_call list"
where
  "set_local_view_layer_props_recursive indexes active mode reveal lps =
     set_local_view_layer_props_loop indexes active mode reveal 0 lps"
| "set_local_view_layer_props_loop indexes active mode reveal i [] = []"
| "set_local_view_layer_props_loop indexes active mode reveal i (LayerProps lid censored child_lpl # lps) =
     (let hide_layer =
            (case mode of
               DP_LAYER_VIEW_MODE_SOLO \<Rightarrow> (if lid = active then False else child_lpl = None)
             | _ \<Rightarrow> False);
          child_layer_view_mode =
            (case mode of
               DP_LAYER_VIEW_MODE_SOLO \<Rightarrow> (if lid = active then DP_LAYER_VIEW_MODE_NORMAL else mode)
             | _ \<Rightarrow> mode);
          change_censored = (reveal \<and> censored)
      in (if hide_layer then [Hidden_by_view_mode_set (indexes @ [i])] else [])
         @ (if change_censored then [Censored_set (indexes @ [i])] else [])
         @ (case child_lpl of
              Some children \<Rightarrow>
                set_local_view_layer_props_recursive (indexes @ [i]) active child_layer_view_mode
                  reveal children
            | None \<Rightarrow> []))
     @ set_local_view_layer_props_loop indexes active mode reveal (Suc i) lps"

text \<open>
  The layer at an index path of a layer props tree, and whether one of the groups above the
  end of the path has the given id.
\<close>

fun layer_at :: "DP_LayerProps list \<Rightarrow> nat list \<Rightarrow> DP_LayerProps option" where
  "layer_at lps [] = None"
| "layer_at lps [i] = (if i < length lps then Some (lps ! i) else None)"
| "layer_at lps (i # j # path) =
     (if i < length lps then
        (case layer_props_children (lps ! i) of
           Some children \<Rightarrow> layer_at children (j # path)
         | None \<Rightarrow> None)
      else None)"

fun inside_group_with_id :: "int \<Rightarrow> DP_LayerProps list \<Rightarrow> nat list \<Rightarrow> bool" where
  "inside_group_with_id a lps [] = False"
| "inside_group_with_id a lps [i] = False"
| "inside_group_with_id a lps (i # j # path) =
     (i < length lps \<and>
      (layer_props_id (lps ! i) = a \<or>
       (case layer_props_children (lps ! i) of
          Some children \<Rightarrow> inside_group_with_id a children (j # path)
        | None \<Rightarrow> False)))"

text \<open>
  The same reading of Solo mode by recursion on the path, as the traversal descends: the
  layer at the head index must not have the active id; if it is not a group the path ends
  there, and if it is a group the rest of the path is read in its children.
\<close>

fun solo_hides :: "int \<Rightarrow> DP_LayerProps list \<Rightarrow> nat list \<Rightarrow> bool" where
  "solo_hides a lps [] = False"
| "solo_hides a [] (i # p) = False"
| "solo_hides a (LayerProps lid c ch # lps) (0 # p) =
     (lid \<noteq> a \<and> (case ch of None \<Rightarrow> p = [] | Some cs \<Rightarrow> solo_hides a cs p))"
| "solo_hides a (lp # lps) (Suc j # p) = solo_hides a lps (j # p)"

section \<open>Examples\<close>

text \<open>
  A fresh engine with a trivial ACL state, and two draw dabs messages of pixel dabs of size
  128, of 8 and of 16 dabs. Each such dab has diameter 256 and area \<open>256\<^sup>2\<close>, a sixteenth of
  \<open>MAX_MULTIDAB_AREA\<close>.
\<close>

definition example_engine :: "unit DP_PaintEngine" where
  "example_engine = DP_paint_engine_new_inc () 0 zero_meta_buffer"

definition pixel_dabs_8 :: DP_Message where
  "pixel_dabs_8 = Message 1 (DrawDabsPixel [128, 128, 128, 128, 128, 128, 128, 128])"

definition pixel_dabs_16 :: DP_Message where
  "pixel_dabs_16 = Message 1 (DrawDabsPixel
     [128, 128, 128, 128, 128, 128, 128, 128, 128, 128, 128, 128, 128, 128, 128, 128])"

text \<open>The two calls that hand a batch to the history.\<close>

fun is_multidab :: "event \<Rightarrow> bool" where
  "is_multidab (History_handle_multidab_dec msgs) = True"
| "is_multidab (History_handle_local_multidab_dec msgs) = True"
| "is_multidab ev = False"

text \<open>
  Two ACL state machines without state: one lets every message pass and reports no change,
  the other lets every message pass and reports the change bit 2 each time.
\<close>

definition pass_all :: "unit \<Rightarrow> DP_Message \<Rightarrow> 8 word \<times> unit" where
  "pass_all s msg = (0, s)"

definition pass_all_changing :: "unit \<Rightarrow> DP_Message \<Rightarrow> 8 word \<times> unit" where
  "pass_all_changing s msg = (2, s)"

text \<open>
  Two cut previews, on layers 5 and 6, the internal messages that install them, and the
  internal message that clears the preview.
\<close>

definition cut_preview_5 :: preview_ptr where
  "cut_preview_5 = Preview_object 0 0 (CutPreview 5 0 0 64 64 None)"

definition cut_preview_6 :: preview_ptr where
  "cut_preview_6 = Preview_object 0 0 (CutPreview 6 0 0 64 64 None)"

definition install_5 :: DP_Message where
  "install_5 = Message 0 (Internal (DP_MSG_INTERNAL_TYPE_PREVIEW cut_preview_5))"

definition install_6 :: DP_Message where
  "install_6 = Message 0 (Internal (DP_MSG_INTERNAL_TYPE_PREVIEW cut_preview_6))"

definition clear_preview :: DP_Message where
  "clear_preview = Message 0 (Internal (DP_MSG_INTERNAL_TYPE_PREVIEW Addr_null_preview))"

text \<open>The example engine after its first tick, with no news from the history.\<close>

definition example_engine_ticked :: "unit DP_PaintEngine" where
  "example_engine_ticked =
     snd (DP_paint_engine_tick example_ops None [] zero_meta_buffer example_engine)"

text \<open>A layer tree: the group 1 with the layer 2 in it, and the layer 3 beside the group.\<close>

definition example_layers :: "DP_LayerProps list" where
  "example_layers =
     [LayerProps 1 False (Some [LayerProps 2 False None]), LayerProps 3 False None]"

text \<open>
  An ACL state machine whose state is the list of the messages it has been given; it
  filters the messages of context 0.
\<close>

definition logging_acl :: "DP_Message list \<Rightarrow> DP_Message \<Rightarrow> 8 word \<times> DP_Message list" where
  "logging_acl log msg = ((if context_id msg = 0 then 1 else 0), log @ [msg])"

text \<open>The place of a callback of the intake in the order of the specification.\<close>

fun callback_rank :: "event \<Rightarrow> nat" where
  "callback_rank (Cb_acls_changed f) = 0"
| "callback_rank (Cb_laser_trail c p col) = 1"
| "callback_rank (Cb_move_pointer c x y) = 2"
| "callback_rank (Cb_default_layer_set l) = 3"
| "callback_rank ev = 4"


section \<open>Properties of the paint thread\<close>

lemma shift_more_loop_takes:
  "shift_more_loop count tot msgs queue = (c, ms, q') \<Longrightarrow>
   \<exists>n. ms = msgs @ take n queue \<and> q' = drop n queue \<and> c = count + n \<and> n \<le> length queue"
proof (induction queue arbitrary: count tot msgs)
  case Nil
  then show ?case by simp
next
  case (Cons msg queue)
  show ?case
  proof (cases "count < MAX_MULTIDAB_MESSAGES \<and> get_dabs_area msg tot \<le> MAX_MULTIDAB_AREA")
    case True
    with Cons.prems have "shift_more_loop (count + 1) (get_dabs_area msg tot) (msgs @ [msg]) queue = (c, ms, q')"
      by (simp add: Let_def)
    from Cons.IH [OF this] obtain n where
      "ms = (msgs @ [msg]) @ take n queue" "q' = drop n queue" "c = count + 1 + n" "n \<le> length queue"
      by blast
    then have "ms = msgs @ take (Suc n) (msg # queue) \<and> q' = drop (Suc n) (msg # queue)
               \<and> c = count + Suc n \<and> Suc n \<le> length (msg # queue)"
      by simp
    then show ?thesis by blast
  next
    case False
    with Cons.prems have "c = count \<and> ms = msgs \<and> q' = msg # queue"
      by (auto simp: Let_def split: if_splits)
    then have "ms = msgs @ take 0 (msg # queue) \<and> q' = drop 0 (msg # queue) \<and> c = count + 0
               \<and> 0 \<le> length (msg # queue)"
      by simp
    then show ?thesis by blast
  qed
qed

lemma shift_more_loop_count:
  "shift_more_loop count tot msgs queue = (c, ms, q') \<Longrightarrow> count \<le> MAX_MULTIDAB_MESSAGES \<Longrightarrow>
   c \<le> MAX_MULTIDAB_MESSAGES"
  by (induction queue arbitrary: count tot msgs) (auto simp: Let_def split: if_splits)

lemma maybe_shift_more_local:
  assumes "maybe_shift_more_messages pe True [first] = (count, msgs, pe')"
  shows "\<exists>n. count = Suc n \<and> msgs = first # take n (local_queue pe)
            \<and> local_queue pe' = drop n (local_queue pe)
            \<and> remote_queue pe' = remote_queue pe \<and> n \<le> length (local_queue pe)"
proof (cases "get_dabs_area first 0 \<le> MAX_MULTIDAB_AREA_THRESHOLD")
  case False
  with assms have "count = Suc 0 \<and> msgs = [first] \<and> pe' = pe"
    by (simp add: maybe_shift_more_messages_def Let_def)
  then show ?thesis by (intro exI [of _ 0]) simp
next
  case True
  obtain c ms q' where l: "shift_more_loop 1 (get_dabs_area first 0) [first] (local_queue pe) = (c, ms, q')"
    by (cases "shift_more_loop 1 (get_dabs_area first 0) [first] (local_queue pe)") auto
  from shift_more_loop_takes [OF l] obtain n where
    n: "ms = [first] @ take n (local_queue pe)" "q' = drop n (local_queue pe)" "c = 1 + n"
       "n \<le> length (local_queue pe)"
    by blast
  from assms True l have "count = c \<and> msgs = ms \<and> local_queue pe' = q' \<and> remote_queue pe' = remote_queue pe"
    by (auto simp: maybe_shift_more_messages_def shift_more_draw_dabs_messages_def Let_def)
  with n show ?thesis by (intro exI [of _ n]) simp
qed

lemma handle_internal_queues:
  "handle_internal pe mi = (evs, pe') \<Longrightarrow>
   local_queue pe' = local_queue pe \<and> remote_queue pe' = remote_queue pe"
  by (cases mi) auto

lemma handle_single_message_queues:
  assumes "handle_single_message pe local msg = (evs, pe')"
  shows "local_queue pe' = local_queue pe \<and> remote_queue pe' = remote_queue pe"
proof (cases "body msg")
  case (Internal mi)
  obtain evs1 pe1 where hi: "handle_internal pe mi = (evs1, pe1)"
    by (cases "handle_internal pe mi") auto
  with assms Internal have "pe' = pe1"
    by (simp add: handle_single_message_def)
  with handle_internal_queues [OF hi] show ?thesis by simp
qed (use assms in \<open>auto simp: handle_single_message_def split: if_splits\<close>)

text \<open>
  Claim C4. When \<^verbatim>\<open>handle_message\<close> runs with a message in the local queue, it does not fail,
  and what it dispatches is a non-empty front of the local queue, as local messages: the
  first message alone through \<^verbatim>\<open>handle_single_message\<close>, or the first message and the \<open>n\<close>
  that follow it as one local batch. The local queue loses exactly these messages and the
  remote queue is left as it was.
\<close>

theorem handle_message_local_priority:
  assumes "local_queue pe = first # rest"
  shows "\<exists>n evs pe'. n \<le> length rest
           \<and> handle_message pe = Inr (evs, pe')
           \<and> (evs, pe') =
               (if n = 0
                then handle_single_message (pe\<lparr>local_queue := rest\<rparr>) True first
                else ([History_handle_local_multidab_dec (first # take n rest)],
                      pe\<lparr>local_queue := drop n rest, queue_sem := queue_sem pe - int n\<rparr>))
           \<and> local_queue pe' = drop n rest
           \<and> remote_queue pe' = remote_queue pe"
proof -
  let ?pe1 = "pe\<lparr>local_queue := rest\<rparr>"
  have sf: "shift_first_message pe = (True, Some first, ?pe1)"
    using assms by (simp add: shift_first_message_def DP_message_queue_shift_def)
  obtain count msgs pe2 where ms: "maybe_shift_more_messages ?pe1 True [first] = (count, msgs, pe2)"
    by (cases "maybe_shift_more_messages ?pe1 True [first]") auto
  from maybe_shift_more_local [OF ms] obtain n where
    n: "count = Suc n" "msgs = first # take n rest" "local_queue pe2 = drop n rest"
       "remote_queue pe2 = remote_queue pe" "n \<le> length rest"
    by auto
  show ?thesis
  proof (cases "n = 0")
    case True
    have pe2: "pe2 = ?pe1"
      using ms True n(1)
      by (auto simp: maybe_shift_more_messages_def shift_more_draw_dabs_messages_def Let_def
               split: if_splits prod.splits dest: shift_more_loop_takes)
    obtain evs pe3 where hs: "handle_single_message ?pe1 True first = (evs, pe3)"
      by (cases "handle_single_message ?pe1 True first") auto
    from handle_single_message_queues [OF hs]
    have q: "local_queue pe3 = rest" "remote_queue pe3 = remote_queue pe" by simp_all
    have "handle_message pe = Inr (evs, pe3)"
      using sf ms n(1) True pe2 hs by (simp add: handle_message_def)
    with hs q True n(5) show ?thesis
      by (intro exI [of _ 0] exI [of _ evs] exI [of _ pe3]) simp
  next
    case False
    have pe2: "pe2 = pe\<lparr>local_queue := drop n rest, queue_sem := queue_sem pe - int n\<rparr>"
      using ms False n(1)
      by (auto simp: maybe_shift_more_messages_def shift_more_draw_dabs_messages_def Let_def
               split: if_splits prod.splits dest!: shift_more_loop_takes)
    have "handle_message pe = Inr ([History_handle_local_multidab_dec (first # take n rest)], pe2)"
      using sf ms n(1,2,5) False by (simp add: handle_message_def handle_multidab_def)
    with pe2 False n(5) show ?thesis
      by (intro exI [of _ n] exI [of _ "[History_handle_local_multidab_dec (first # take n rest)]"]
                exI [of _ pe2]) simp
  qed
qed

text \<open>
  The theorem at an engine with two messages in the local queue and one in the remote
  queue.
\<close>

theorem handle_message_local_priority_witness:
  "\<exists>n evs pe'. n \<le> length [pixel_dabs_8]
     \<and> handle_message
         (example_engine\<lparr>local_queue := [pixel_dabs_16, pixel_dabs_8],
                         remote_queue := [pixel_dabs_8]\<rparr>) = Inr (evs, pe')
     \<and> local_queue pe' = drop n [pixel_dabs_8]
     \<and> remote_queue pe' = [pixel_dabs_8]"
proof -
  let ?pe = "example_engine\<lparr>local_queue := [pixel_dabs_16, pixel_dabs_8],
                            remote_queue := [pixel_dabs_8]\<rparr>"
  have h: "local_queue ?pe = pixel_dabs_16 # [pixel_dabs_8]" by simp
  from handle_message_local_priority [OF h] obtain n evs pe' where
    "n \<le> length [pixel_dabs_8]" "handle_message ?pe = Inr (evs, pe')"
    "local_queue pe' = drop n [pixel_dabs_8]" "remote_queue pe' = remote_queue ?pe"
    by blast
  then show ?thesis by (intro exI [of _ n] exI [of _ evs] exI [of _ pe']) simp
qed

subsection \<open>The size of a batch\<close>

lemma free_preview_no_multidab: "ev \<in> set (free_preview p) \<Longrightarrow> \<not> is_multidab ev"
  by (cases p) auto

lemma handle_internal_no_multidab:
  "ev \<in> set (fst (handle_internal pe mi)) \<Longrightarrow> \<not> is_multidab ev"
  by (cases mi) (auto dest: free_preview_no_multidab)

lemma handle_single_message_no_multidab:
  assumes "ev \<in> set (fst (handle_single_message pe local msg))"
  shows "\<not> is_multidab ev"
proof (cases "body msg")
  case (Internal mi)
  then have "fst (handle_single_message pe local msg) = fst (handle_internal pe mi) @ [Message_decref msg]"
    by (simp add: handle_single_message_def split: prod.splits)
  with assms show ?thesis by (auto dest: handle_internal_no_multidab)
qed (use assms in \<open>auto simp: handle_single_message_def split: if_splits\<close>)

lemma maybe_shift_more_count:
  assumes "maybe_shift_more_messages pe local [first] = (count, msgs, pe')"
  shows "count \<le> MAX_MULTIDAB_MESSAGES \<and> length msgs = count"
proof (cases "get_dabs_area first 0 \<le> MAX_MULTIDAB_AREA_THRESHOLD")
  case False
  with assms show ?thesis
    by (auto simp: maybe_shift_more_messages_def MAX_MULTIDAB_MESSAGES_def)
next
  case True
  let ?q = "if local then local_queue pe else remote_queue pe"
  obtain c ms q' where l: "shift_more_loop 1 (get_dabs_area first 0) [first] ?q = (c, ms, q')"
    by (cases "shift_more_loop 1 (get_dabs_area first 0) [first] ?q") auto
  from assms True l have cm: "count = c" "msgs = ms"
    by (simp_all add: maybe_shift_more_messages_def shift_more_draw_dabs_messages_def Let_def)
  from shift_more_loop_count [OF l] have "c \<le> MAX_MULTIDAB_MESSAGES"
    by (simp add: MAX_MULTIDAB_MESSAGES_def)
  moreover from shift_more_loop_takes [OF l] have "length ms = c" by auto
  ultimately show ?thesis using cm by simp
qed

text \<open>
  The first half of claim C3 holds: a batch handed to either multidab handler has at most
  \<open>MAX_MULTIDAB_MESSAGES\<close> messages.
\<close>

lemma handle_message_batch_count:
  assumes "handle_message pe = Inr (evs, pe')"
    and "History_handle_multidab_dec msgs \<in> set evs \<or> History_handle_local_multidab_dec msgs \<in> set evs"
  shows "length msgs \<le> MAX_MULTIDAB_MESSAGES"
proof -
  obtain local first pe1 where sf: "shift_first_message pe = (local, Some first, pe1)"
    using assms(1) by (cases "shift_first_message pe") (auto simp: handle_message_def split: option.splits)
  obtain count ms pe2 where mm: "maybe_shift_more_messages pe1 local [first] = (count, ms, pe2)"
    by (cases "maybe_shift_more_messages pe1 local [first]") auto
  from maybe_shift_more_count [OF mm] have c: "count \<le> MAX_MULTIDAB_MESSAGES" "length ms = count"
    by simp_all
  show ?thesis
  proof (cases "count = 1")
    case True
    with assms(1) sf mm have "evs = fst (handle_single_message pe2 local first)"
      by (auto simp: handle_message_def split: prod.splits)
    with assms(2) handle_single_message_no_multidab [of _ pe2 local first] show ?thesis
      by fastforce
  next
    case False
    with assms(1) sf mm have "evs = handle_multidab local (take count ms)"
      by (simp add: handle_message_def)
    with assms(2) c show ?thesis
      by (auto simp: handle_multidab_def split: if_splits)
  qed
qed

subsection \<open>The area of a batch\<close>

text \<open>
  Each area loop returns its start value plus the areas of a front of the dab list, and
  leaves dabs out only when what it returns has reached the cap.
\<close>

lemma get_pixel_dabs_area_prefix:
  "\<exists>n\<le>length pds. get_pixel_dabs_area pds t
        = t + sum_list (take n (map (\<lambda>sz. max 1 ((int sz * 2) * (int sz * 2))) pds))
      \<and> (n < length pds \<longrightarrow> MAX_MULTIDAB_AREA \<le> get_pixel_dabs_area pds t)"
proof (induction pds arbitrary: t)
  case Nil
  show ?case by simp
next
  case (Cons sz pds)
  show ?case
  proof (cases "t < MAX_MULTIDAB_AREA")
    case True
    from Cons [of "t + max 1 ((int sz * 2) * (int sz * 2))"] obtain n where
      "n \<le> length pds"
      "get_pixel_dabs_area pds (t + max 1 ((int sz * 2) * (int sz * 2)))
         = t + max 1 ((int sz * 2) * (int sz * 2))
           + sum_list (take n (map (\<lambda>sz. max 1 ((int sz * 2) * (int sz * 2))) pds))"
      "n < length pds \<longrightarrow> MAX_MULTIDAB_AREA \<le> get_pixel_dabs_area pds (t + max 1 ((int sz * 2) * (int sz * 2)))"
      by blast
    with True show ?thesis
      by (intro exI [of _ "Suc n"]) (simp add: Let_def)
  next
    case False
    then show ?thesis by (intro exI [of _ 0]) simp
  qed
qed

lemma get_classic_dabs_area_prefix:
  "\<exists>n\<le>length cds. get_classic_dabs_area cds t
        = t + sum_list (take n (map (\<lambda>sz. max 1 ((int sz div 256 * 2) * (int sz div 256 * 2))) cds))
      \<and> (n < length cds \<longrightarrow> MAX_MULTIDAB_AREA \<le> get_classic_dabs_area cds t)"
proof (induction cds arbitrary: t)
  case Nil
  show ?case by simp
next
  case (Cons sz cds)
  let ?a = "max 1 ((int sz div 256 * 2) * (int sz div 256 * 2))"
  show ?case
  proof (cases "t < MAX_MULTIDAB_AREA")
    case True
    from Cons [of "t + ?a"] obtain n where
      "n \<le> length cds"
      "get_classic_dabs_area cds (t + ?a)
         = t + ?a + sum_list (take n (map (\<lambda>sz. max 1 ((int sz div 256 * 2) * (int sz div 256 * 2))) cds))"
      "n < length cds \<longrightarrow> MAX_MULTIDAB_AREA \<le> get_classic_dabs_area cds (t + ?a)"
      by blast
    with True show ?thesis
      by (intro exI [of _ "Suc n"]) (simp add: Let_def)
  next
    case False
    then show ?thesis by (intro exI [of _ 0]) simp
  qed
qed

lemma get_mypaint_dabs_area_prefix:
  "\<exists>n\<le>length mpds. get_mypaint_dabs_area mpds t
        = t + sum_list (take n (map (\<lambda>sz. max 1 ((int sz div 256) * (int sz div 256))) mpds))
      \<and> (n < length mpds \<longrightarrow> MAX_MULTIDAB_AREA \<le> get_mypaint_dabs_area mpds t)"
proof (induction mpds arbitrary: t)
  case Nil
  show ?case by simp
next
  case (Cons sz mpds)
  let ?a = "max 1 ((int sz div 256) * (int sz div 256))"
  show ?case
  proof (cases "t < MAX_MULTIDAB_AREA")
    case True
    from Cons [of "t + ?a"] obtain n where
      "n \<le> length mpds"
      "get_mypaint_dabs_area mpds (t + ?a)
         = t + ?a + sum_list (take n (map (\<lambda>sz. max 1 ((int sz div 256) * (int sz div 256))) mpds))"
      "n < length mpds \<longrightarrow> MAX_MULTIDAB_AREA \<le> get_mypaint_dabs_area mpds (t + ?a)"
      by blast
    with True show ?thesis
      by (intro exI [of _ "Suc n"]) (simp add: Let_def)
  next
    case False
    then show ?thesis by (intro exI [of _ 0]) simp
  qed
qed

lemma get_dabs_area_prefix:
  assumes "get_dabs_area msg t \<le> MAX_MULTIDAB_AREA"
  shows "\<exists>n\<le>length (dab_areas_spec (body msg)).
           get_dabs_area msg t = t + sum_list (take n (dab_areas_spec (body msg)))
           \<and> (n < length (dab_areas_spec (body msg)) \<longrightarrow> get_dabs_area msg t = MAX_MULTIDAB_AREA)"
proof (cases "body msg")
  case (DrawDabsClassic cds)
  with get_classic_dabs_area_prefix [of cds t] assms show ?thesis
    by (fastforce simp: get_dabs_area_def)
next
  case (DrawDabsPixel pds)
  with get_pixel_dabs_area_prefix [of pds t] assms show ?thesis
    by (fastforce simp: get_dabs_area_def)
next
  case (DrawDabsPixelSquare pds)
  with get_pixel_dabs_area_prefix [of pds t] assms show ?thesis
    by (fastforce simp: get_dabs_area_def)
next
  case (DrawDabsMyPaint mpds)
  with get_mypaint_dabs_area_prefix [of mpds t] assms show ?thesis
    by (fastforce simp: get_dabs_area_def)
qed (use assms in \<open>simp_all add: get_dabs_area_def\<close>)

lemma get_dabs_area_at_or_over_cap:
  assumes "MAX_MULTIDAB_AREA \<le> t" "get_dabs_area msg t \<le> MAX_MULTIDAB_AREA"
  shows "get_dabs_area msg t = t"
proof (cases "body msg")
  case (DrawDabsClassic cds)
  with assms(1) show ?thesis by (cases cds) (simp_all add: get_dabs_area_def)
next
  case (DrawDabsPixel pds)
  with assms(1) show ?thesis by (cases pds) (simp_all add: get_dabs_area_def)
next
  case (DrawDabsPixelSquare pds)
  with assms(1) show ?thesis by (cases pds) (simp_all add: get_dabs_area_def)
next
  case (DrawDabsMyPaint mpds)
  with assms(1) show ?thesis by (cases mpds) (simp_all add: get_dabs_area_def)
qed (use assms in \<open>simp_all add: get_dabs_area_def\<close>)


lemma batch_dab_areas_spec_snoc:
  "batch_dab_areas_spec (msgs @ [msg]) = batch_dab_areas_spec msgs @ dab_areas_spec (body msg)"
  by (simp add: batch_dab_areas_spec_def)

lemma area_counted_step:
  assumes "area_counted tot msgs" and "get_dabs_area msg tot \<le> MAX_MULTIDAB_AREA"
  shows "area_counted (get_dabs_area msg tot) (msgs @ [msg])"
proof -
  let ?A = "batch_dab_areas_spec msgs" and ?B = "dab_areas_spec (body msg)"
  from assms(1) obtain n where n: "n \<le> length ?A" "tot = sum_list (take n ?A)"
    "n < length ?A \<longrightarrow> tot = MAX_MULTIDAB_AREA" and le: "tot \<le> MAX_MULTIDAB_AREA"
    unfolding area_counted_def by blast
  show ?thesis
  proof (cases "n < length ?A")
    case True
    with n(3) have cap: "tot = MAX_MULTIDAB_AREA" by simp
    then have "get_dabs_area msg tot = tot"
      using get_dabs_area_at_or_over_cap [of tot msg] assms(2) by simp
    with cap n True show ?thesis
      unfolding area_counted_def batch_dab_areas_spec_snoc
      by (intro conjI exI [of _ n]) simp_all
  next
    case False
    with n(1) have full: "n = length ?A" by simp
    from get_dabs_area_prefix [OF assms(2)] obtain k where k: "k \<le> length ?B"
      "get_dabs_area msg tot = tot + sum_list (take k ?B)"
      "k < length ?B \<longrightarrow> get_dabs_area msg tot = MAX_MULTIDAB_AREA"
      by blast
    with full n(2) assms(2) show ?thesis
      unfolding area_counted_def batch_dab_areas_spec_snoc
      by (intro conjI exI [of _ "length ?A + k"]) simp_all
  qed
qed

lemma shift_more_loop_area_counted:
  "shift_more_loop count tot msgs queue = (c, ms, q') \<Longrightarrow> area_counted tot msgs \<Longrightarrow>
   \<exists>tot'. area_counted tot' ms"
proof (induction queue arbitrary: count tot msgs)
  case Nil
  then show ?case by auto
next
  case (Cons msg queue)
  show ?case
  proof (cases "count < MAX_MULTIDAB_MESSAGES \<and> get_dabs_area msg tot \<le> MAX_MULTIDAB_AREA")
    case True
    with Cons.prems(1) have "shift_more_loop (count + 1) (get_dabs_area msg tot) (msgs @ [msg]) queue = (c, ms, q')"
      by (simp add: Let_def)
    moreover from True Cons.prems(2) have "area_counted (get_dabs_area msg tot) (msgs @ [msg])"
      by (simp add: area_counted_step)
    ultimately show ?thesis by (rule Cons.IH)
  next
    case False
    with Cons.prems(1) have "ms = msgs" by (auto simp: Let_def split: if_splits)
    with Cons.prems(2) show ?thesis by blast
  qed
qed

lemma area_counted_first:
  assumes "get_dabs_area first 0 \<le> MAX_MULTIDAB_AREA_THRESHOLD"
  shows "area_counted (get_dabs_area first 0) [first]"
proof -
  have lt: "get_dabs_area first 0 < MAX_MULTIDAB_AREA"
    using assms by (simp add: MAX_MULTIDAB_AREA_THRESHOLD_def MAX_MULTIDAB_AREA_def)
  then have "get_dabs_area first 0 \<le> MAX_MULTIDAB_AREA" by simp
  from get_dabs_area_prefix [OF this] lt show ?thesis
    unfolding area_counted_def by (auto simp: batch_dab_areas_spec_def)
qed

lemma area_counted_bound:
  assumes "area_counted tot msgs"
  shows "batch_area_spec msgs \<le> MAX_MULTIDAB_AREA
         \<or> (\<exists>n<length (batch_dab_areas_spec msgs).
               sum_list (take n (batch_dab_areas_spec msgs)) = MAX_MULTIDAB_AREA)"
proof -
  from assms obtain n where n: "n \<le> length (batch_dab_areas_spec msgs)"
    "tot = sum_list (take n (batch_dab_areas_spec msgs))"
    "n < length (batch_dab_areas_spec msgs) \<longrightarrow> tot = MAX_MULTIDAB_AREA" "tot \<le> MAX_MULTIDAB_AREA"
    unfolding area_counted_def by blast
  show ?thesis
  proof (cases "n < length (batch_dab_areas_spec msgs)")
    case True
    with n show ?thesis by auto
  next
    case False
    with n have "tot = batch_area_spec msgs" by (simp add: batch_area_spec_def)
    with n(4) show ?thesis by simp
  qed
qed

text \<open>
  The second half of claim C3 holds with a margin wherever the running total does not land
  on the cap: the dabs of a batch cover at most \<open>MAX_MULTIDAB_AREA\<close>, unless the areas of a
  proper front of its dabs add up to \<open>MAX_MULTIDAB_AREA\<close> exactly.
\<close>

lemma handle_message_batch_area:
  assumes "handle_message pe = Inr (evs, pe')"
    and "History_handle_multidab_dec msgs \<in> set evs \<or> History_handle_local_multidab_dec msgs \<in> set evs"
  shows "batch_area_spec msgs \<le> MAX_MULTIDAB_AREA
         \<or> (\<exists>n<length (batch_dab_areas_spec msgs).
               sum_list (take n (batch_dab_areas_spec msgs)) = MAX_MULTIDAB_AREA)"
proof -
  obtain local first pe1 where sf: "shift_first_message pe = (local, Some first, pe1)"
    using assms(1) by (cases "shift_first_message pe") (auto simp: handle_message_def split: option.splits)
  obtain count ms pe2 where mm: "maybe_shift_more_messages pe1 local [first] = (count, ms, pe2)"
    by (cases "maybe_shift_more_messages pe1 local [first]") auto
  from maybe_shift_more_count [OF mm] have c: "length ms = count" by simp
  have batch: "count \<noteq> 1" "msgs = ms"
  proof -
    show "count \<noteq> 1"
    proof
      assume "count = 1"
      with assms(1) sf mm have "evs = fst (handle_single_message pe2 local first)"
        by (auto simp: handle_message_def split: prod.splits)
      with assms(2) handle_single_message_no_multidab [of _ pe2 local first] show False
        by fastforce
    qed
    with assms(1) sf mm have "evs = handle_multidab local (take count ms)"
      by (simp add: handle_message_def)
    with assms(2) c show "msgs = ms"
      by (auto simp: handle_multidab_def split: if_splits)
  qed
  have th: "get_dabs_area first 0 \<le> MAX_MULTIDAB_AREA_THRESHOLD"
    using mm batch(1) by (auto simp: maybe_shift_more_messages_def Let_def split: if_splits)
  let ?q = "if local then local_queue pe1 else remote_queue pe1"
  obtain c' ms' q' where l: "shift_more_loop 1 (get_dabs_area first 0) [first] ?q = (c', ms', q')"
    by (cases "shift_more_loop 1 (get_dabs_area first 0) [first] ?q") auto
  with mm th have "ms = ms'"
    by (simp add: maybe_shift_more_messages_def shift_more_draw_dabs_messages_def Let_def)
  with shift_more_loop_area_counted [OF l area_counted_first [OF th]] batch(2)
  obtain tot' where "area_counted tot' msgs" by blast
  then show ?thesis by (rule area_counted_bound)
qed


lemma get_dabs_area_pixel_dabs_8_0: "get_dabs_area pixel_dabs_8 0 = 524288"
  by (simp add: get_dabs_area_def pixel_dabs_8_def MAX_MULTIDAB_AREA_def)

lemma get_dabs_area_pixel_dabs_8_half: "get_dabs_area pixel_dabs_8 524288 = 1048576"
  by (simp add: get_dabs_area_def pixel_dabs_8_def MAX_MULTIDAB_AREA_def)

lemma get_dabs_area_at_cap: "get_dabs_area pixel_dabs_16 1048576 = 1048576"
  by (simp add: get_dabs_area_def pixel_dabs_16_def MAX_MULTIDAB_AREA_def)

lemma batch_area_spec_example:
  "batch_area_spec [pixel_dabs_8, pixel_dabs_8, pixel_dabs_16] = 2097152"
  by (simp add: batch_area_spec_def batch_dab_areas_spec_def pixel_dabs_8_def pixel_dabs_16_def)

lemma batch_dab_areas_spec_example:
  "set (batch_dab_areas_spec [pixel_dabs_8, pixel_dabs_8, pixel_dabs_16]) = {65536}"
  by (simp add: batch_dab_areas_spec_def pixel_dabs_8_def pixel_dabs_16_def)

text \<open>
  Claim C3, at a remote queue holding 8, 8 and 16 pixel dabs of size 128. The area of the
  first message is the threshold, half the cap, so more messages are shifted; the second
  one brings the running total to the cap exactly and is accepted; from then on each area
  loop stops before its first dab, the total stays at the cap, and the third message is
  accepted as well. The batch handed to the history has the three messages; the area of all
  its dabs, as the claim counts it, is twice \<open>MAX_MULTIDAB_AREA\<close>, which is more than
  \<open>MAX_MULTIDAB_AREA\<close> plus the area of any one dab of the batch (each has area 65536).
\<close>

theorem handle_message_batch_area_at_cap:
  "handle_message
     (example_engine\<lparr>remote_queue := [pixel_dabs_8, pixel_dabs_8, pixel_dabs_16], queue_sem := 3\<rparr>)
   = Inr ([History_handle_multidab_dec [pixel_dabs_8, pixel_dabs_8, pixel_dabs_16]],
          example_engine\<lparr>remote_queue := [], queue_sem := 1\<rparr>)
   \<and> batch_area_spec [pixel_dabs_8, pixel_dabs_8, pixel_dabs_16] = 2 * MAX_MULTIDAB_AREA
   \<and> Max (set (batch_dab_areas_spec [pixel_dabs_8, pixel_dabs_8, pixel_dabs_16])) = 65536
   \<and> MAX_MULTIDAB_AREA + 65536 < batch_area_spec [pixel_dabs_8, pixel_dabs_8, pixel_dabs_16]"
proof -
  have "handle_message
     (example_engine\<lparr>remote_queue := [pixel_dabs_8, pixel_dabs_8, pixel_dabs_16], queue_sem := 3\<rparr>)
   = Inr ([History_handle_multidab_dec [pixel_dabs_8, pixel_dabs_8, pixel_dabs_16]],
          example_engine\<lparr>remote_queue := [], queue_sem := 1\<rparr>)"
    by (simp add: handle_message_def shift_first_message_def DP_message_queue_shift_def
        example_engine_def DP_paint_engine_new_inc_def maybe_shift_more_messages_def
        shift_more_draw_dabs_messages_def get_dabs_area_pixel_dabs_8_0 get_dabs_area_pixel_dabs_8_half
        get_dabs_area_at_cap MAX_MULTIDAB_AREA_THRESHOLD_def MAX_MULTIDAB_AREA_def
        MAX_MULTIDAB_MESSAGES_def handle_multidab_def)
  then show ?thesis
    by (simp add: batch_area_spec_example batch_dab_areas_spec_example MAX_MULTIDAB_AREA_def)
qed

section \<open>Properties of teardown\<close>











text \<open>The whole trace of that teardown.\<close>

lemma free_join_example:
  "DP_paint_engine_free_join
     (Some (example_engine\<lparr>local_queue := [install_6, clear_preview],
                           remote_queue := [install_5]\<rparr>))
   = [Preview_dispose_free cut_preview_5, Message_decref install_5,
      Preview_dispose_free cut_preview_6, Message_decref install_6,
      Message_decref clear_preview]"
  by (simp add: DP_paint_engine_free_join_def example_engine_def DP_paint_engine_new_inc_def
        cut_preview_5_def cut_preview_6_def install_5_def install_6_def clear_preview_def)

subsection \<open>The references held by the previews\<close>

lemma all_message_decrefs_append:
  "all_message_decrefs (xs @ ys) = all_message_decrefs xs @ all_message_decrefs ys"
  by (induction xs rule: all_message_decrefs.induct) simp_all

lemma all_message_decrefs_free_preview:
  "all_message_decrefs (free_preview p) = preview_dispose_decrefs p"
  by (cases p) simp_all

lemma all_message_decrefs_preview_payload:
  "all_message_decrefs (case b of
       Internal (DP_MSG_INTERNAL_TYPE_PREVIEW data) \<Rightarrow> free_preview data
     | _ \<Rightarrow> [])
   = (case b of
        Internal (DP_MSG_INTERNAL_TYPE_PREVIEW data) \<Rightarrow> preview_dispose_decrefs data
      | _ \<Rightarrow> [])"
  by (simp add: all_message_decrefs_free_preview split: message_body.splits DP_MsgInternal.splits)

lemma all_message_decrefs_queue_dispose:
  "all_message_decrefs (DP_message_queue_dispose queue) = drained_decrefs queue"
  by (induction queue)
     (simp_all add: all_message_decrefs_append all_message_decrefs_preview_payload)

lemma all_message_decrefs_free_join_drain:
  "all_message_decrefs (free_join_drain queue) = drained_decrefs queue"
  by (induction queue)
     (simp_all add: all_message_decrefs_append all_message_decrefs_preview_payload)

text \<open>
  With the releases made inside the disposals counted as well, teardown releases, next to
  one reference of each queued message, one reference of each message held by a dabs
  preview that it disposes, and no other.
\<close>

lemma free_join_all_message_decrefs:
  "all_message_decrefs (DP_paint_engine_free_join (Some pe))
   = preview_dispose_decrefs (next_preview pe)
     @ drained_decrefs (remote_queue pe)
     @ drained_decrefs (local_queue pe)
     @ preview_dispose_decrefs (preview pe)"
  by (simp add: DP_paint_engine_free_join_def all_message_decrefs_append
        all_message_decrefs_free_preview all_message_decrefs_queue_dispose
        all_message_decrefs_free_join_drain)

section \<open>Properties of the intake\<close>

lemma upixel8_color_roundtrip:
  "upixel8_color (upixel8_b c) (upixel8_g c) (upixel8_r c) (upixel8_a c) = c"
  unfolding upixel8_color_def upixel8_b_def upixel8_g_def upixel8_r_def upixel8_a_def
proof (rule bit_word_eqI)
  fix n :: nat
  assume "n < LENGTH(32)"
  then have n: "n < 32" by simp
  consider "n < 8" | "8 \<le> n" "n < 16" | "16 \<le> n" "n < 24" | "24 \<le> n"
    by linarith
  then show "bit (ucast (ucast c :: 8 word) OR push_bit 8 (ucast (ucast (drop_bit 8 c) :: 8 word))
                  OR push_bit 16 (ucast (ucast (drop_bit 16 c) :: 8 word))
                  OR push_bit 24 (ucast (ucast (drop_bit 24 c) :: 8 word)) :: 32 word) n = bit c n"
    using n by cases (auto simp: bit_simps)
qed

text \<open>
  Two messages of one context in a row, at the start of a remote batch that the ACL lets
  pass: whatever the context, the values and the engine, the context id is entered twice.
  The first message of a batch resets the \<open>active\<close> flags and enters its context id in
  \<open>users\<close> without setting the flag of that id; the second message finds the flag unset and
  enters the id again.
\<close>

lemma handle_inc_first_context_entered_twice:
  "fst (snd (DP_paint_engine_handle_inc pass_all change_mask pe False
      [Message c (LaserTrail p1 c1), Message c (LaserTrail p2 c2)]))
   = [Cb_laser_trail (DP_uint_to_uint8 c) p2 c2, Cb_laser_trail (DP_uint_to_uint8 c) p2 c2]
   \<and> fst (snd (DP_paint_engine_handle_inc pass_all change_mask pe False
      [Message c (MovePointer x1 y1), Message c (MovePointer x2 y2)]))
   = [Cb_move_pointer (DP_uint_to_uint8 c) x2 y2, Cb_move_pointer (DP_uint_to_uint8 c) x2 y2]"
  by (simp add: DP_paint_engine_handle_inc_def should_push_message_remote_def pass_all_def
      DP_message_type_def is_internal_or_command_def handle_laser_trail_def
      handle_move_pointer_def DP_ACL_STATE_FILTERED_BIT_def Let_def
      laser_trail_calls_def move_pointer_calls_def upixel8_color_roundtrip upt_rec)

text \<open>
  Claim C1, at a remote batch of two laser trail messages of context 5, and at a batch of two
  move pointer messages of context 5, with an ACL that lets everything pass, on any engine.
  Each callback fires twice for context 5, not once, both times with the values of the
  later message.
\<close>

theorem handle_inc_same_context_fires_twice:
  "fst (snd (DP_paint_engine_handle_inc pass_all change_mask pe False
      [Message 5 (LaserTrail 10 255), Message 5 (LaserTrail 20 4278190335)]))
   = [Cb_laser_trail 5 20 4278190335, Cb_laser_trail 5 20 4278190335]
   \<and> fst (snd (DP_paint_engine_handle_inc pass_all change_mask pe False
      [Message 5 (MovePointer 1 2), Message 5 (MovePointer 3 4)]))
   = [Cb_move_pointer 5 3 4, Cb_move_pointer 5 3 4]"
  using handle_inc_first_context_entered_twice [of change_mask pe 5 10 255 20 4278190335 1 2 3 4]
  by (simp add: DP_uint_to_uint8_def)

subsection \<open>The order of the callbacks\<close>

lemma laser_trail_calls_ranks:
  "map callback_rank (laser_trail_calls laser) = replicate (unat (laser_count laser)) 1"
  by (simp add: laser_trail_calls_def Let_def comp_def map_replicate_const)

lemma move_pointer_calls_ranks:
  "map callback_rank (move_pointer_calls cursor) = replicate (unat (cursor_count cursor)) 2"
  by (simp add: move_pointer_calls_def Let_def comp_def map_replicate_const)

text \<open>
  For every call, local or remote, the callbacks come in the order ACL change, laser
  trails, pointer moves, default layer.
\<close>

lemma handle_inc_callback_order:
  "sorted (map callback_rank
     (fst (snd (DP_paint_engine_handle_inc acl_handle change_mask pe local msgs))))"
proof -
  obtain pushed pe1 where l: "handle_inc_loop
      (if local then should_push_message_local else should_push_message_remote acl_handle) local
      (pe\<lparr>meta_buffer := (meta_buffer pe)
                  \<lparr>acl_change_flags := 0,
                   laser_changes := (laser_changes (meta_buffer pe))\<lparr>laser_count := 0\<rparr>,
                   cursor_changes := (cursor_changes (meta_buffer pe))\<lparr>cursor_count := 0\<rparr>,
                   have_default_layer := False\<rparr>\<rparr>) msgs = (pushed, pe1)"
    by (meson surj_pair)
  let ?mb = "meta_buffer pe1"
  have "fst (snd (DP_paint_engine_handle_inc acl_handle change_mask pe local msgs)) =
      (if acl_change_flags ?mb AND change_mask \<noteq> 0
       then [Cb_acls_changed (uint (acl_change_flags ?mb AND change_mask))] else [])
      @ laser_trail_calls (laser_changes ?mb)
      @ move_pointer_calls (cursor_changes ?mb)
      @ (if have_default_layer ?mb then [Cb_default_layer_set (default_layer ?mb)] else [])"
    using l by (simp add: DP_paint_engine_handle_inc_def Let_def)
  then show ?thesis
    by (auto simp: sorted_append laser_trail_calls_ranks move_pointer_calls_ranks)
qed

text \<open>
  Claim C6, at a remote batch in which context 5 sends two laser trails and context 7 two
  pointer moves, followed by a default layer message, with an ACL that reports a change for
  every message, on any engine. The callbacks come in the order of the claim (ACL change,
  laser trails, pointer moves, default layer), but the laser trail callback and the move
  pointer callback are each called twice for the one context that was touched, not once.
\<close>

theorem handle_inc_callbacks_repeated_context:
  "fst (snd (DP_paint_engine_handle_inc pass_all_changing 14 pe False
      [Message 5 (LaserTrail 10 255), Message 7 (MovePointer 1 2),
       Message 5 (LaserTrail 20 4278190335), Message 7 (MovePointer 3 4),
       Message 1 (DefaultLayer 3)]))
   = [Cb_acls_changed 2,
      Cb_laser_trail 5 20 4278190335, Cb_laser_trail 5 20 4278190335,
      Cb_move_pointer 7 3 4, Cb_move_pointer 7 3 4,
      Cb_default_layer_set 3]"
  by (simp add: DP_paint_engine_handle_inc_def should_push_message_remote_def pass_all_changing_def
      DP_message_type_def is_internal_or_command_def handle_laser_trail_def
      handle_move_pointer_def handle_default_layer_def DP_uint_to_uint8_def
      DP_ACL_STATE_FILTERED_BIT_def Let_def
      laser_trail_calls_def move_pointer_calls_def upixel8_color_roundtrip upt_rec)

subsection \<open>The ACL state machine sees every message once\<close>

lemma should_push_message_remote_acls:
  "acls (snd (should_push_message_remote acl_handle pe msg)) = snd (acl_handle (acls pe) msg)"
  by (simp add: should_push_message_remote_def handle_laser_trail_def handle_move_pointer_def
        handle_default_layer_def Let_def split: prod.splits)

lemma DP_message_queue_push_inc_acls: "acls (DP_message_queue_push_inc local pe msg) = acls pe"
  by (simp add: DP_message_queue_push_inc_def)

lemma push_messages_loop_acls:
  "acls (snd (push_messages_loop (should_push_message_remote acl_handle) local pe pushed msgs))
   = foldl (\<lambda>s m. snd (acl_handle s m)) (acls pe) msgs"
proof (induction msgs arbitrary: pe pushed)
  case Nil
  show ?case by simp
next
  case (Cons msg msgs)
  obtain b pe1 where sp: "should_push_message_remote acl_handle pe msg = (b, pe1)"
    by (cases "should_push_message_remote acl_handle pe msg") auto
  have a: "acls pe1 = snd (acl_handle (acls pe) msg)"
    using should_push_message_remote_acls [of acl_handle pe msg] sp by simp
  show ?case
    using sp a Cons.IH by (cases b) (simp_all add: DP_message_queue_push_inc_acls)
qed

lemma push_messages_acls:
  "acls (snd (push_messages (should_push_message_remote acl_handle) local pe (msg # msgs)))
   = foldl (\<lambda>s m. snd (acl_handle s m)) (acls pe) msgs"
proof -
  let ?pe0 = "DP_message_queue_push_inc local pe msg"
  obtain pushed pe1 where l:
    "push_messages_loop (should_push_message_remote acl_handle) local ?pe0 1 msgs = (pushed, pe1)"
    by (cases "push_messages_loop (should_push_message_remote acl_handle) local ?pe0 1 msgs") auto
  have "acls pe1 = foldl (\<lambda>s m. snd (acl_handle s m)) (acls ?pe0) msgs"
    using push_messages_loop_acls [of acl_handle local ?pe0 1 msgs] l by simp
  then show ?thesis
    using l by (simp add: push_messages_def DP_message_queue_push_inc_acls)
qed

lemma handle_inc_loop_acls:
  "acls (snd (handle_inc_loop (should_push_message_remote acl_handle) local pe msgs))
   = foldl (\<lambda>s m. snd (acl_handle s m)) (acls pe) msgs"
proof (induction msgs arbitrary: pe)
  case Nil
  show ?case by simp
next
  case (Cons msg msgs)
  obtain b pe1 where sp: "should_push_message_remote acl_handle pe msg = (b, pe1)"
    by (cases "should_push_message_remote acl_handle pe msg") auto
  have a: "acls pe1 = snd (acl_handle (acls pe) msg)"
    using should_push_message_remote_acls [of acl_handle pe msg] sp by simp
  show ?case
  proof (cases b)
    case True
    then show ?thesis using sp a push_messages_acls [of acl_handle local pe1 msg msgs] by simp
  next
    case False
    then show ?thesis using sp a Cons.IH [of pe1] by simp
  qed
qed

text \<open>
  Claim C8. For a remote batch and any ACL state machine, the state of the machine after
  \<^verbatim>\<open>DP_paint_engine_handle_inc\<close> is the state reached by handling the messages of the batch
  one after the other, each once, in the order of the batch, wherever the first message to
  push stands. (For a machine whose state is the list of the messages it was given, this is
  the batch itself appended to the list.)
\<close>

theorem handle_inc_acl_each_message_once_in_order:
  "acls (snd (snd (DP_paint_engine_handle_inc acl_handle change_mask pe False msgs)))
   = foldl (\<lambda>s m. snd (acl_handle s m)) (acls pe) msgs"
proof -
  let ?pe0 = "pe\<lparr>meta_buffer := (meta_buffer pe)
                  \<lparr>acl_change_flags := 0,
                   laser_changes := (laser_changes (meta_buffer pe))\<lparr>laser_count := 0\<rparr>,
                   cursor_changes := (cursor_changes (meta_buffer pe))\<lparr>cursor_count := 0\<rparr>,
                   have_default_layer := False\<rparr>\<rparr>"
  have "acls (snd (handle_inc_loop (should_push_message_remote acl_handle) False ?pe0 msgs))
        = foldl (\<lambda>s m. snd (acl_handle s m)) (acls ?pe0) msgs"
    by (rule handle_inc_loop_acls)
  then show ?thesis
    by (auto simp: DP_paint_engine_handle_inc_def Let_def split: prod.splits)
qed

text \<open>
  The theorem for the machine that keeps a list of what it is given, at a batch whose
  first message to push is the third one: the list is the batch.
\<close>

theorem handle_inc_acl_each_message_once_in_order_witness:
  "acls (snd (snd (DP_paint_engine_handle_inc logging_acl 14
            (DP_paint_engine_new_inc [] 0 zero_meta_buffer) False
            [Message 0 (LaserTrail 10 255), Message 5 (LaserTrail 20 255), pixel_dabs_8,
             install_5, Message 5 (MovePointer 1 2), pixel_dabs_16])))
   = [Message 0 (LaserTrail 10 255), Message 5 (LaserTrail 20 255), pixel_dabs_8,
      install_5, Message 5 (MovePointer 1 2), pixel_dabs_16]"
  using handle_inc_acl_each_message_once_in_order
    [of logging_acl 14 "DP_paint_engine_new_inc [] 0 zero_meta_buffer"
        "[Message 0 (LaserTrail 10 255), Message 5 (LaserTrail 20 255), pixel_dabs_8,
          install_5, Message 5 (MovePointer 1 2), pixel_dabs_16]"]
  by (simp add: logging_acl_def DP_paint_engine_new_inc_def)

section \<open>Properties of the local view and the tick\<close>

lemma tick_steady:
  assumes "catchup pe = - 1" "next_preview pe = NULL_preview" "prev_lpl (local_view pe) \<noteq> None"
  shows "DP_paint_engine_tick ops None ucb buffers pe = ([], pe\<lparr>meta_buffer := buffers\<rparr>)"
  using assms by (auto simp: DP_paint_engine_tick_def Let_def)

lemma apply_local_layer_props_prev_lpl:
  "prev_lpl (local_view (snd (apply_local_layer_props ops pe cs))) \<noteq> None"
  by (auto simp: apply_local_layer_props_def set_local_layer_props_def Let_def split: prod.splits)

lemma apply_local_layer_props_slots:
  "catchup (snd (apply_local_layer_props ops pe cs)) = catchup pe
   \<and> next_preview (snd (apply_local_layer_props ops pe cs)) = next_preview pe"
  by (auto simp: apply_local_layer_props_def set_local_layer_props_def Let_def split: prod.splits)

text \<open>
  Whatever a tick starts from and whatever the history answers, it leaves the catchup slot
  at \<open>-1\<close>, the \<open>next_preview\<close> slot null and \<open>prev_lpl\<close> set.
\<close>

lemma tick_leaves_steady:
  "catchup (snd (DP_paint_engine_tick ops h ucb buffers pe)) = - 1
   \<and> next_preview (snd (DP_paint_engine_tick ops h ucb buffers pe)) = NULL_preview
   \<and> prev_lpl (local_view (snd (DP_paint_engine_tick ops h ucb buffers pe))) \<noteq> None"
proof -
  define pe4 where "pe4 =
    (let pe2 = (case h of
                  Some cs \<Rightarrow> pe\<lparr>catchup := - 1, meta_buffer := buffers, history_cs := cs\<rparr>
                | None \<Rightarrow> pe\<lparr>catchup := - 1, meta_buffer := buffers\<rparr>);
         pe3 = pe2\<lparr>next_preview := NULL_preview\<rparr>
     in if next_preview pe2 \<noteq> NULL_preview
        then pe3\<lparr>preview := (if next_preview pe2 = Addr_null_preview then NULL_preview else next_preview pe2)\<rparr>
        else pe3)"
  have s4: "catchup pe4 = - 1" "next_preview pe4 = NULL_preview"
    by (auto simp: pe4_def Let_def split: option.splits)
  let ?cs = "apply_inspect ops pe4 (apply_preview ops pe4 (history_cs pe4))"
  let ?composes = "h \<noteq> None \<or> next_preview pe \<noteq> NULL_preview \<or> prev_lpl (local_view pe4) = None"
  have t: "snd (DP_paint_engine_tick ops h ucb buffers pe) =
        (if ?composes
         then (snd (apply_local_layer_props ops pe4 ?cs))\<lparr>view_cs := fst (apply_local_layer_props ops pe4 ?cs)\<rparr>
         else pe4)"
    by (cases h) (auto simp: DP_paint_engine_tick_def pe4_def Let_def split: prod.splits)
  show ?thesis
  proof (cases ?composes)
    case True
    with t s4 apply_local_layer_props_prev_lpl [of ops pe4 ?cs]
      apply_local_layer_props_slots [of ops pe4 ?cs]
    show ?thesis by simp
  next
    case False
    with t s4 show ?thesis by auto
  qed
qed

lemma first_tick_example:
  "DP_paint_engine_tick example_ops None [] zero_meta_buffer example_engine =
     ([Cb_tile_changed 0 0, Cb_layer_props_changed 1004, Cb_annotations_changed 2004,
       Cb_document_metadata_changed 3004],
      example_engine\<lparr>view_cs := 4,
        local_view := (local_view example_engine)\<lparr>prev_lpl := Some 1000, lpl := Some 1004\<rparr>\<rparr>)"
  by (simp add: DP_paint_engine_tick_def example_engine_def DP_paint_engine_new_inc_def
        example_ops_def apply_local_layer_props_def set_local_layer_props_def apply_inspect_def
        apply_preview_def emit_changes_def Let_def)

lemma example_engine_ticked_eq:
  "example_engine_ticked =
     example_engine\<lparr>view_cs := 4,
       local_view := (local_view example_engine)\<lparr>prev_lpl := Some 1000, lpl := Some 1004\<rparr>\<rparr>"
  by (simp add: example_engine_ticked_def first_tick_example)

text \<open>
  Claim C7. Let \<open>pe1\<close> be the engine as a tick left it and \<open>pe2\<close> the engine at the next
  tick, with no catchup value pending, no preview pending, and \<open>prev_lpl\<close> as it was left
  (whatever else has changed). If the history has no new state, the tick calls nothing, and
  the engine it returns is the one it was given but for the memory of the flexible buffer:
  the view canvas state is the same pointer.
\<close>

theorem tick_idempotent_on_steady_state:
  assumes "pe1 = snd (DP_paint_engine_tick ops h ucb buffers pe)"
    and "catchup pe2 = - 1"
    and "next_preview pe2 = NULL_preview"
    and "prev_lpl (local_view pe2) = prev_lpl (local_view pe1)"
  shows "DP_paint_engine_tick ops None ucb' buffers' pe2 = ([], pe2\<lparr>meta_buffer := buffers'\<rparr>)
         \<and> view_cs (snd (DP_paint_engine_tick ops None ucb' buffers' pe2)) = view_cs pe2"
proof -
  from tick_leaves_steady [of ops h ucb buffers pe] assms(1,4)
  have "prev_lpl (local_view pe2) \<noteq> None" by simp
  with assms(2,3)
  have "DP_paint_engine_tick ops None ucb' buffers' pe2 = ([], pe2\<lparr>meta_buffer := buffers'\<rparr>)"
    by (rule tick_steady)
  then show ?thesis by simp
qed

text \<open>
  The theorem at the example engine: its first tick composes the view and calls four
  callbacks; a second tick right after it calls none and changes nothing.
\<close>

theorem tick_idempotent_on_steady_state_witness:
  "fst (DP_paint_engine_tick example_ops None [] zero_meta_buffer example_engine)
     = [Cb_tile_changed 0 0, Cb_layer_props_changed 1004, Cb_annotations_changed 2004,
        Cb_document_metadata_changed 3004]
   \<and> DP_paint_engine_tick example_ops None [] zero_meta_buffer example_engine_ticked
        = ([], example_engine_ticked)
   \<and> view_cs example_engine_ticked = 4"
proof -
  have a: "catchup example_engine_ticked = - 1" "next_preview example_engine_ticked = NULL_preview"
    "example_engine_ticked\<lparr>meta_buffer := zero_meta_buffer\<rparr> = example_engine_ticked"
    unfolding example_engine_ticked_eq
    by (simp_all add: example_engine_def DP_paint_engine_new_inc_def)
  have "DP_paint_engine_tick example_ops None [] zero_meta_buffer example_engine_ticked
          = ([], example_engine_ticked\<lparr>meta_buffer := zero_meta_buffer\<rparr>)"
    using tick_idempotent_on_steady_state [OF example_engine_ticked_def a(1,2) refl]
    by (rule conjunct1)
  then have "DP_paint_engine_tick example_ops None [] zero_meta_buffer example_engine_ticked
          = ([], example_engine_ticked)"
    by (simp only: a(3))
  then show ?thesis
    by (simp add: first_tick_example example_engine_ticked_eq)
qed

text \<open>
  Claim C10. \<^verbatim>\<open>DP_paint_engine_active_layer_id_set\<close> sets \<open>prev_lpl\<close> to null exactly when
  the layer id differs from the current one and the view mode is not Normal, and leaves it
  as it is otherwise. In Normal mode the engine after the call is the engine before it with
  the \<open>active_layer_id\<close> field replaced, and if a tick had nothing to do before the call
  (nothing pending, \<open>prev_lpl\<close> set), then the tick after the call, with no news from the
  history, composes nothing: it calls nothing and leaves the view canvas state.
\<close>

theorem active_layer_id_set_invalidates_outside_normal_mode_only:
  "prev_lpl (local_view (DP_paint_engine_active_layer_id_set pe layer_id)) =
     (if active_layer_id (local_view pe) \<noteq> layer_id
         \<and> layer_view_mode (local_view pe) \<noteq> DP_LAYER_VIEW_MODE_NORMAL
      then None else prev_lpl (local_view pe))
   \<and> (layer_view_mode (local_view pe) = DP_LAYER_VIEW_MODE_NORMAL \<longrightarrow>
        DP_paint_engine_active_layer_id_set pe layer_id
          = pe\<lparr>local_view := (local_view pe)\<lparr>active_layer_id := layer_id\<rparr>\<rparr>
        \<and> (catchup pe = - 1 \<and> next_preview pe = NULL_preview \<and> prev_lpl (local_view pe) \<noteq> None \<longrightarrow>
             DP_paint_engine_tick ops None ucb buffers (DP_paint_engine_active_layer_id_set pe layer_id)
               = ([], (DP_paint_engine_active_layer_id_set pe layer_id)\<lparr>meta_buffer := buffers\<rparr>)))"
proof -
  have inv: "prev_lpl (local_view (DP_paint_engine_active_layer_id_set pe layer_id)) =
     (if active_layer_id (local_view pe) \<noteq> layer_id
         \<and> layer_view_mode (local_view pe) \<noteq> DP_LAYER_VIEW_MODE_NORMAL
      then None else prev_lpl (local_view pe))"
    by (simp add: DP_paint_engine_active_layer_id_set_def invalidate_local_view_def Let_def)
  have field: "DP_paint_engine_active_layer_id_set pe layer_id
          = pe\<lparr>local_view := (local_view pe)\<lparr>active_layer_id := layer_id\<rparr>\<rparr>"
    if "layer_view_mode (local_view pe) = DP_LAYER_VIEW_MODE_NORMAL"
    using that by (simp add: DP_paint_engine_active_layer_id_set_def Let_def)
  have tick: "DP_paint_engine_tick ops None ucb buffers (DP_paint_engine_active_layer_id_set pe layer_id)
               = ([], (DP_paint_engine_active_layer_id_set pe layer_id)\<lparr>meta_buffer := buffers\<rparr>)"
    if "layer_view_mode (local_view pe) = DP_LAYER_VIEW_MODE_NORMAL"
      and "catchup pe = - 1" "next_preview pe = NULL_preview" "prev_lpl (local_view pe) \<noteq> None"
  proof (rule tick_steady)
    show "catchup (DP_paint_engine_active_layer_id_set pe layer_id) = - 1"
      using that by (simp add: field)
    show "next_preview (DP_paint_engine_active_layer_id_set pe layer_id) = NULL_preview"
      using that by (simp add: field)
    show "prev_lpl (local_view (DP_paint_engine_active_layer_id_set pe layer_id)) \<noteq> None"
      using that by (simp add: inv)
  qed
  from inv field tick show ?thesis by blast
qed

text \<open>
  The theorem at the example engine after its first tick, in Normal mode and then in Solo
  mode with \<open>prev_lpl\<close> set again: in Normal mode the new active layer 7 is stored, \<open>prev_lpl\<close>
  stays and the next tick calls nothing; in Solo mode \<open>prev_lpl\<close> becomes null.
\<close>

theorem active_layer_id_set_invalidates_outside_normal_mode_only_witness:
  "prev_lpl (local_view (DP_paint_engine_active_layer_id_set example_engine_ticked 7)) = Some 1000
   \<and> active_layer_id (local_view (DP_paint_engine_active_layer_id_set example_engine_ticked 7)) = 7
   \<and> fst (DP_paint_engine_tick example_ops None [] zero_meta_buffer
        (DP_paint_engine_active_layer_id_set example_engine_ticked 7)) = []
   \<and> prev_lpl (local_view (DP_paint_engine_active_layer_id_set
        (example_engine_ticked\<lparr>local_view := (local_view example_engine_ticked)
           \<lparr>layer_view_mode := DP_LAYER_VIEW_MODE_SOLO\<rparr>\<rparr>) 7)) = None"
proof -
  let ?solo = "example_engine_ticked\<lparr>local_view := (local_view example_engine_ticked)
           \<lparr>layer_view_mode := DP_LAYER_VIEW_MODE_SOLO\<rparr>\<rparr>"
  have e: "layer_view_mode (local_view example_engine_ticked) = DP_LAYER_VIEW_MODE_NORMAL"
    "active_layer_id (local_view example_engine_ticked) = 0"
    "catchup example_engine_ticked = - 1" "next_preview example_engine_ticked = NULL_preview"
    "prev_lpl (local_view example_engine_ticked) = Some 1000"
    unfolding example_engine_ticked_eq
    by (simp_all add: example_engine_def DP_paint_engine_new_inc_def)
  have ne: "prev_lpl (local_view example_engine_ticked) \<noteq> None"
    using e(5) by simp
  note t = active_layer_id_set_invalidates_outside_normal_mode_only
             [of example_engine_ticked 7 example_ops "[]" zero_meta_buffer]
  have "prev_lpl (local_view (DP_paint_engine_active_layer_id_set example_engine_ticked 7)) = Some 1000"
    using t [THEN conjunct1] e by simp
  moreover
  have ab: "DP_paint_engine_active_layer_id_set example_engine_ticked 7
          = example_engine_ticked\<lparr>local_view := (local_view example_engine_ticked)\<lparr>active_layer_id := 7\<rparr>\<rparr>
        \<and> DP_paint_engine_tick example_ops None [] zero_meta_buffer
            (DP_paint_engine_active_layer_id_set example_engine_ticked 7)
          = ([], (DP_paint_engine_active_layer_id_set example_engine_ticked 7)
                   \<lparr>meta_buffer := zero_meta_buffer\<rparr>)"
    using t [THEN conjunct2] e(1,3,4) ne by blast
  have "active_layer_id (local_view (DP_paint_engine_active_layer_id_set example_engine_ticked 7)) = 7"
    using ab [THEN conjunct1] by simp
  moreover
  have "fst (DP_paint_engine_tick example_ops None [] zero_meta_buffer
        (DP_paint_engine_active_layer_id_set example_engine_ticked 7)) = []"
    using ab [THEN conjunct2] by (simp only: fst_conv)
  moreover
  from active_layer_id_set_invalidates_outside_normal_mode_only
         [of ?solo 7 example_ops "[]" zero_meta_buffer] e(2)
  have "prev_lpl (local_view (DP_paint_engine_active_layer_id_set ?solo 7)) = None"
    by simp
  ultimately show ?thesis by blast
qed

section \<open>Properties of the previews\<close>

text \<open>
  Claim C9. \<^verbatim>\<open>DP_paint_engine_preview_dabs_inc\<close> with a count of zero or less returns the
  engine as it is: no preview object comes into being, neither queue gets a message and
  the semaphore keeps its count.
\<close>

theorem preview_dabs_inc_without_messages_is_noop:
  assumes "count \<le> 0"
  shows "DP_paint_engine_preview_dabs_inc ops pe layer_id count messages = pe"
  using assms by (simp add: DP_paint_engine_preview_dabs_inc_def)

text \<open>
  The theorem at counts 0 and \<open>-1\<close>, next to what a count of 1 does: it queues the message
  that installs a preview holding the first message, and posts the semaphore.
\<close>

theorem preview_dabs_inc_without_messages_is_noop_witness:
  "DP_paint_engine_preview_dabs_inc example_ops example_engine 1 0 [pixel_dabs_8] = example_engine
   \<and> DP_paint_engine_preview_dabs_inc example_ops example_engine 1 (- 1) [pixel_dabs_8] = example_engine
   \<and> DP_paint_engine_preview_dabs_inc example_ops example_engine 1 1 [pixel_dabs_8]
      = example_engine
          \<lparr>local_queue :=
             [Message 0 (Internal (DP_MSG_INTERNAL_TYPE_PREVIEW
                (Preview_object 0 0 (DabsPreview 1 1 [pixel_dabs_8]))))],
           queue_sem := 1\<rparr>"
proof -
  have "DP_paint_engine_preview_dabs_inc example_ops example_engine 1 0 [pixel_dabs_8] = example_engine"
    by (rule preview_dabs_inc_without_messages_is_noop) simp
  moreover
  have "DP_paint_engine_preview_dabs_inc example_ops example_engine 1 (- 1) [pixel_dabs_8] = example_engine"
    by (rule preview_dabs_inc_without_messages_is_noop) simp
  moreover
  have "DP_paint_engine_preview_dabs_inc example_ops example_engine 1 1 [pixel_dabs_8]
      = example_engine
          \<lparr>local_queue :=
             [Message 0 (Internal (DP_MSG_INTERNAL_TYPE_PREVIEW
                (Preview_object 0 0 (DabsPreview 1 1 [pixel_dabs_8]))))],
           queue_sem := 1\<rparr>"
    by (simp add: DP_paint_engine_preview_dabs_inc_def set_preview_def sync_preview_def
          example_ops_def example_engine_def DP_paint_engine_new_inc_def)
  ultimately show ?thesis by simp
qed

section \<open>Properties of the local layer props\<close>

lemma solo_hides_Nil [simp]: "solo_hides a [] p = False"
  by (cases p) simp_all

lemma hidden_calls_solo_hides:
  shows "Hidden_by_view_mode_set q \<in> set (set_local_view_layer_props_recursive idxs a m r lps)
           \<longleftrightarrow> (m = DP_LAYER_VIEW_MODE_SOLO \<and> (\<exists>p. q = idxs @ p \<and> solo_hides a lps p))"
    and "Hidden_by_view_mode_set q \<in> set (set_local_view_layer_props_loop idxs a m r i lps)
           \<longleftrightarrow> (m = DP_LAYER_VIEW_MODE_SOLO \<and> (\<exists>j p. q = idxs @ (i + j) # p \<and> solo_hides a lps (j # p)))"
proof (induction idxs a m r lps and idxs a m r i lps arbitrary: q and q
       rule: set_local_view_layer_props_recursive_set_local_view_layer_props_loop.induct)
  case (1 indexes active mode reveal lps)
  have "(\<exists>p. q = indexes @ p \<and> solo_hides active lps p)
        \<longleftrightarrow> (\<exists>j p. q = indexes @ (0 + j) # p \<and> solo_hides active lps (j # p))"
  proof
    assume "\<exists>p. q = indexes @ p \<and> solo_hides active lps p"
    then obtain p where p: "q = indexes @ p" "solo_hides active lps p" by blast
    then obtain j p' where "p = j # p'" by (cases p) auto
    with p show "\<exists>j p. q = indexes @ (0 + j) # p \<and> solo_hides active lps (j # p)" by auto
  next
    assume "\<exists>j p. q = indexes @ (0 + j) # p \<and> solo_hides active lps (j # p)"
    then show "\<exists>p. q = indexes @ p \<and> solo_hides active lps p" by auto
  qed
  with 1 show ?case by simp
next
  case (2 indexes active mode reveal i)
  show ?case by simp
next
  case (3 indexes active mode reveal i lid censored child_lpl lps)
  let ?cm = "case mode of DP_LAYER_VIEW_MODE_SOLO \<Rightarrow>
               if lid = active then DP_LAYER_VIEW_MODE_NORMAL else mode | _ \<Rightarrow> mode"
  let ?H = "Hidden_by_view_mode_set q"
  let ?lp = "LayerProps lid censored child_lpl"
  have tail: "?H \<in> set (set_local_view_layer_props_loop indexes active mode reveal (Suc i) lps)
     \<longleftrightarrow> (mode = DP_LAYER_VIEW_MODE_SOLO
          \<and> (\<exists>j p. q = indexes @ (i + Suc j) # p \<and> solo_hides active (?lp # lps) (Suc j # p)))"
    using "3.IH"(2) [of q] by simp
  have child: "?H \<in> set (set_local_view_layer_props_recursive (indexes @ [i]) active ?cm reveal cs)
     \<longleftrightarrow> (?cm = DP_LAYER_VIEW_MODE_SOLO \<and> (\<exists>p. q = (indexes @ [i]) @ p \<and> solo_hides active cs p))"
    if "child_lpl = Some cs" for cs
    using "3.IH"(1) [OF refl refl refl that, of q] .
  have cm: "?cm = DP_LAYER_VIEW_MODE_SOLO \<longleftrightarrow> (mode = DP_LAYER_VIEW_MODE_SOLO \<and> lid \<noteq> active)"
    by (cases mode) auto
  define head_calls where "head_calls =
       (if (case mode of DP_LAYER_VIEW_MODE_SOLO \<Rightarrow>
                if lid = active then False else child_lpl = None | _ \<Rightarrow> False)
        then [Hidden_by_view_mode_set (indexes @ [i])] else [])
       @ (if reveal \<and> censored then [Censored_set (indexes @ [i])] else [])
       @ (case child_lpl of
            Some children \<Rightarrow>
              set_local_view_layer_props_recursive (indexes @ [i]) active ?cm reveal children
          | None \<Rightarrow> [])"
  have unfold: "set_local_view_layer_props_loop indexes active mode reveal i (?lp # lps)
                = head_calls @ set_local_view_layer_props_loop indexes active mode reveal (Suc i) lps"
    by (simp add: head_calls_def Let_def)
  have head: "?H \<in> set head_calls
     \<longleftrightarrow> (mode = DP_LAYER_VIEW_MODE_SOLO
          \<and> (\<exists>p. q = indexes @ (i + 0) # p \<and> solo_hides active (?lp # lps) (0 # p)))"
  proof (cases child_lpl)
    case None
    then show ?thesis unfolding head_calls_def by (cases mode) auto
  next
    case (Some cs)
    from child [OF Some] cm Some show ?thesis unfolding head_calls_def by (cases mode) auto
  qed
  have split: "(\<exists>j p. q = indexes @ (i + j) # p \<and> solo_hides active (?lp # lps) (j # p))
     \<longleftrightarrow> (\<exists>p. q = indexes @ (i + 0) # p \<and> solo_hides active (?lp # lps) (0 # p))
       \<or> (\<exists>j p. q = indexes @ (i + Suc j) # p \<and> solo_hides active (?lp # lps) (Suc j # p))"
    (is "?L \<longleftrightarrow> ?A \<or> ?B")
  proof
    assume ?L
    then obtain j p where jp: "q = indexes @ (i + j) # p" "solo_hides active (?lp # lps) (j # p)"
      by blast
    show "?A \<or> ?B"
    proof (cases j)
      case 0
      with jp show ?thesis by auto
    next
      case (Suc j')
      with jp have ?B by blast
      then show ?thesis ..
    qed
  next
    assume "?A \<or> ?B"
    then show ?L by blast
  qed
  have "?H \<in> set (set_local_view_layer_props_loop indexes active mode reveal i (?lp # lps))
        \<longleftrightarrow> (mode = DP_LAYER_VIEW_MODE_SOLO
             \<and> (\<exists>p. q = indexes @ (i + 0) # p \<and> solo_hides active (?lp # lps) (0 # p)))
          \<or> (mode = DP_LAYER_VIEW_MODE_SOLO
             \<and> (\<exists>j p. q = indexes @ (i + Suc j) # p \<and> solo_hides active (?lp # lps) (Suc j # p)))"
    unfolding unfold set_append Un_iff using head tail by blast
  with split show ?case by blast
qed


lemma layer_at_Cons_Suc: "layer_at (lp # lps) (Suc j # p) = layer_at lps (j # p)"
  by (cases p) simp_all

lemma inside_group_with_id_Cons_Suc:
  "inside_group_with_id a (lp # lps) (Suc j # p) = inside_group_with_id a lps (j # p)"
  by (cases p) simp_all

lemma layer_at_Nil: "layer_at [] p = None"
proof (cases p)
  case Nil
  then show ?thesis by simp
next
  case (Cons i path)
  then show ?thesis by (cases path) simp_all
qed

lemma solo_hides_layer_at:
  "solo_hides a lps p \<longleftrightarrow>
     (\<exists>lp. layer_at lps p = Some lp \<and> layer_props_children lp = None \<and> layer_props_id lp \<noteq> a
           \<and> \<not> inside_group_with_id a lps p)"
proof (induction a lps p rule: solo_hides.induct)
  case (1 a lps)
  show ?case by simp
next
  case (2 a i p)
  show ?case by (simp add: layer_at_Nil)
next
  case (3 a lid c ch lps p)
  show ?case
  proof (cases p)
    case Nil
    then show ?thesis by (cases ch) auto
  next
    case (Cons j path)
    show ?thesis
    proof (cases ch)
      case None
      with Cons show ?thesis by simp
    next
      case (Some cs)
      with Cons "3.IH" [OF Some] show ?thesis by auto
    qed
  qed
next
  case (4 a lp lps j p)
  then show ?case by (simp only: solo_hides.simps layer_at_Cons_Suc inside_group_with_id_Cons_Suc)
qed

text \<open>
  Claim C5, as stated, fails inside the active group. With the group 1 active in Solo
  mode, the layer 2 in it is a layer without children whose id is not the active one, and
  it is not hidden: the traversal turns to Normal mode below the active group. The only
  layer hidden is the layer 3 beside the group.
\<close>

theorem solo_mode_active_group_counterexample:
  "layer_at example_layers [0, 0] = Some (LayerProps 2 False None)
   \<and> set_local_view_layer_props_recursive [] 1 DP_LAYER_VIEW_MODE_SOLO False example_layers
       = [Hidden_by_view_mode_set [1]]"
  by (simp add: example_layers_def)

text \<open>
  Claim C5, amended. In Solo mode the traversal sets hidden-by-view-mode on exactly the
  layers that have no child list, whose id differs from the active layer id, and that do not
  lie inside a group whose id is the active layer id. A layer with a child list is never
  hidden.
\<close>

theorem solo_mode_hides_leaves_outside_active_group:
  "Hidden_by_view_mode_set p
     \<in> set (set_local_view_layer_props_recursive [] a DP_LAYER_VIEW_MODE_SOLO r lps)
   \<longleftrightarrow> (\<exists>lp. layer_at lps p = Some lp
            \<and> layer_props_children lp = None
            \<and> layer_props_id lp \<noteq> a
            \<and> \<not> inside_group_with_id a lps p)"
proof -
  have "Hidden_by_view_mode_set p
          \<in> set (set_local_view_layer_props_recursive [] a DP_LAYER_VIEW_MODE_SOLO r lps)
        \<longleftrightarrow> solo_hides a lps p"
    using hidden_calls_solo_hides(1) [of p "[]" a DP_LAYER_VIEW_MODE_SOLO r lps] by simp
  then show ?thesis by (simp only: solo_hides_layer_at)
qed

end
